theory Spec2Isabelle
  imports Main "HOL-Library.Word"
begin

section \<open>The hypershell server (bin/server.js)\<close>

text \<open>
  A shallow embedding of \<^verbatim>\<open>bin/server.js\<close>: the start-up function \<open>cmd\<close>, the firewall
  callback \<open>onFirewall\<close>, the connection handler \<open>onconnection\<close> and the reader of the
  authorized-peers file, \<open>readAuthorizedPeers\<close>. The program is event driven, so the model is
  a state record, one function per callback of the source, and a step function that
  dispatches the events of the environment to these callbacks. Every effect of the source
  (file-system calls, console output, registrations with other modules) is appended to a
  trace kept in the state.
\<close>

subsection \<open>Values\<close>

text \<open>A public key is a Buffer: a sequence of bytes. \<open>Buffer.equals\<close> is equality of the bytes.\<close>

type_synonym key = "8 word list"

text \<open>
  The argument of \<open>readAuthorizedPeers\<close> is a file name (a string) at start-up and whatever
  the file watcher hands to its callback afterwards (a Buffer, or null).
\<close>

datatype js_value = JString string | JBuffer string | JNull

text \<open>
  Thrown errors. Only errors of the file system carry a \<open>code\<close>; the error thrown by the
  key decoder is a plain error without one, and so is the TypeError of iterating a value
  that is not iterable.
\<close>

datatype error = SystemError string | DecodeError | TypeError | ListenError

fun code :: "error \<Rightarrow> string option" where
  "code (SystemError c) = Some c"
| "code DecodeError = None"
| "code TypeError = None"
| "code ListenError = None"

text \<open>The variable \<open>allowed\<close> of \<open>cmd\<close> holds a boolean or an array of public keys.\<close>

datatype allowed_value = Bool bool | Array "key list"

text \<open>The four handler classes of \<^verbatim>\<open>lib/\<close> that the pairing callbacks instantiate.\<close>

datatype handler = ShellServer | UploadServer | DownloadServer | LocalTunnelServer

text \<open>
  The functions registered with the shutdown registry: the closure of each connection,
  identified by the number of its socket, and the three closures of \<open>cmd\<close>.
\<close>

datatype action = UnwatchFirewall | NodeDestroy | ServerClose | SocketEndWait nat

datatype event =
    ExistsSync string
  | MkdirSync string
  | WriteFileSync string string
  | ReadFileSync string
  | Keygen string
  | ConsoleLog string
  | ConsoleError "string option"
  | ReadFileLive string
  | Goodbye action nat
  | NewDHT bool
  | CreateServer
  | Listen key
  | Verdict key bool
  | SetKeepAlive nat nat
  | SocketEnd nat
  | NewProtomux nat
  | MuxPair nat string
  | Construct handler nat
  | Open handler nat
  | Begin action
  | Finish action

subsection \<open>The collaborators outside the file\<close>

text \<open>
  The modules that \<^verbatim>\<open>server.js\<close> requires are parameters of the model: the path functions
  of Node, \<open>String.prototype.trim\<close>, \<open>HypercoreId.decode\<close> (applied to a string or to
  \<open>undefined\<close>; \<open>None\<close> when it throws) and \<open>HypercoreId.encode\<close>, the public key that
  \<open>DHT.keyPair\<close> derives from a seed, the seed text that \<^verbatim>\<open>keygen.js\<close> persists, and the error
  with which \<open>server.listen\<close> rejects, if it does. So is the operating system, which can
  refuse a call on the file system for reasons that the files themselves do not show (a
  missing permission, a full disk): \<open>fs_error\<close> gives the error of such a call, if there is one.
\<close>

record env =
  path_resolve :: "string \<Rightarrow> string"
  path_dirname :: "string \<Rightarrow> string"
  String_trim :: "string \<Rightarrow> string"
  HypercoreId_decode :: "string option \<Rightarrow> key option"
  HypercoreId_encode :: "key \<Rightarrow> string"
  DHT_keyPair :: "key \<Rightarrow> key"
  keygen_seed :: "string"
  listen_error :: "error option"
  fs_error :: "event \<Rightarrow> error option"

text \<open>The options object that commander passes to \<open>cmd\<close>.\<close>

record options =
  opt_f :: string
  opt_firewall :: string
  opt_disableFirewall :: bool
  opt_protocol :: "string list option"
  opt_testnet :: bool

subsection \<open>State\<close>

text \<open>
  A socket accepted by the server: the public key of its peer and the bindings that
  \<open>mux.pair\<close> has registered on its multiplexer (protocol name and the class that the
  callback of the binding instantiates).
\<close>

record socket =
  remotePublicKey :: key
  paired :: "(string \<times> handler) list"

text \<open>
  The state of the process: the files, the trace of effects, the variable \<open>allowed\<close>,
  whether the file watcher is installed, the handlers registered with the shutdown
  registry (position and function, in registration order), the live sockets, the number of
  sockets accepted so far, the error that escaped (out of \<open>cmd\<close> or out of a callback), and
  whether the shutdown has run.
\<close>

record state =
  files :: "string \<rightharpoonup> string"
  trace :: "event list"
  allowed :: allowed_value
  watcher :: bool
  registry :: "(nat \<times> action) list"
  sockets :: "nat \<rightharpoonup> socket"
  accepted :: nat
  crashed :: "error option"
  exited :: bool

definition init :: "(string \<rightharpoonup> string) \<Rightarrow> state" where
  "init fs = \<lparr>files = fs, trace = [], allowed = Bool False, watcher = False, registry = [],
     sockets = Map.empty, accepted = 0, crashed = None, exited = False\<rparr>"

definition emit :: "event \<Rightarrow> state \<Rightarrow> state" where
  "emit e s = s\<lparr>trace := trace s @ [e]\<rparr>"

definition throw :: "error \<Rightarrow> state \<Rightarrow> state" where
  "throw e s = s\<lparr>crashed := Some e\<rparr>"

definition live :: "state \<Rightarrow> bool" where
  "live s = (crashed s = None \<and> \<not> exited s)"

subsection \<open>The file system\<close>

text \<open>
  The calls of \<open>fs\<close> that the source makes, on a store of files by path. Every call but
  \<open>existsSync\<close> throws the error with which the operating system refuses it. Directories
  are not stored: \<open>mkdirSync\<close> with \<open>recursive: true\<close> fails on a path that names a regular
  file, and otherwise only leaves its call in the trace. \<open>writeFileSync\<close> is the call with
  \<open>flag: 'wx'\<close>, which fails on an existing file. \<open>readFileSync\<close> fails on a missing file.
\<close>

definition existsSync :: "string \<Rightarrow> state \<Rightarrow> bool \<times> state" where
  "existsSync p s = (files s p \<noteq> None, emit (ExistsSync p) s)"

definition mkdirSync :: "env \<Rightarrow> string \<Rightarrow> state \<Rightarrow> error option \<times> state" where
  "mkdirSync E d s =
     (let s1 = emit (MkdirSync d) s in
      case fs_error E (MkdirSync d) of
        Some e \<Rightarrow> (Some e, s1)
      | None \<Rightarrow>
          if files s d \<noteq> None then (Some (SystemError ''EEXIST''), s1)
          else (None, s1))"

definition writeFileSync :: "env \<Rightarrow> string \<Rightarrow> string \<Rightarrow> state \<Rightarrow> error option \<times> state" where
  "writeFileSync E p d s =
     (let s1 = emit (WriteFileSync p d) s in
      case fs_error E (WriteFileSync p d) of
        Some e \<Rightarrow> (Some e, s1)
      | None \<Rightarrow>
          if files s p \<noteq> None then (Some (SystemError ''EEXIST''), s1)
          else (None, s1\<lparr>files := (files s1)(p \<mapsto> d)\<rparr>))"

definition readFileSync :: "env \<Rightarrow> string \<Rightarrow> state \<Rightarrow> (error + string) \<times> state" where
  "readFileSync E p s =
     (let s1 = emit (ReadFileSync p) s in
      case fs_error E (ReadFileSync p) of
        Some e \<Rightarrow> (Inl e, s1)
      | None \<Rightarrow>
          (case files s p of
             None \<Rightarrow> (Inl (SystemError ''ENOENT''), s1)
           | Some d \<Rightarrow> (Inr d, s1)))"

subsection \<open>The parser of the authorized-peers file\<close>

text \<open>
  Modelled from the spec: \<open>configs.parse(list, { split: ' ', length: 2 })\<close> of tiny-configs,
  which is not part of the sources. The text is read line by line; blank lines and lines
  that begin with \<open>#\<close> are dropped; a line is split at its spaces, and only the lines of
  exactly two fields, a key and a name, are kept. A list that is \<open>null\<close> has no lines.
\<close>

fun split_on :: "char \<Rightarrow> string \<Rightarrow> string list" where
  "split_on sep [] = [[]]"
| "split_on sep (c # cs) =
     (if c = sep then [] # split_on sep cs
      else (case split_on sep cs of [] \<Rightarrow> [[c]] | w # ws \<Rightarrow> (c # w) # ws))"

definition is_record :: "string \<Rightarrow> bool" where
  "is_record l = (case l of [] \<Rightarrow> False | c # cs \<Rightarrow> c \<noteq> CHR ''#'')"

definition records :: "string \<Rightarrow> string list" where
  "records d = filter is_record (split_on (CHR 0x0A) d)"

definition two_fields :: "string list \<Rightarrow> string list list" where
  "two_fields ls = filter (\<lambda>v. length v = 2) (map (split_on CHR '' '') ls)"

fun configs_parse :: "js_value \<Rightarrow> string list list" where
  "configs_parse (JString d) = two_fields (records d)"
| "configs_parse (JBuffer d) = two_fields (records d)"
| "configs_parse JNull = []"

subsection \<open>readAuthorizedPeers\<close>

definition header :: string where
  "header = ''# <public key> <name>'' @ [CHR 0x0A]"

text \<open>\<open>v[0]\<close>: the first field of a parsed line, \<open>undefined\<close> when the line has none.\<close>

fun first_field :: "string list \<Rightarrow> string option" where
  "first_field [] = None"
| "first_field (x # xs) = Some x"

text \<open>\<open>.map(v => HypercoreId.decode(v[0]))\<close>: the first key that fails to decode throws.\<close>

fun decode_all :: "env \<Rightarrow> string list list \<Rightarrow> error + key list" where
  "decode_all E [] = Inr []"
| "decode_all E (v # vs) =
     (case HypercoreId_decode E (first_field v) of
        None \<Rightarrow> Inl DecodeError
      | Some k \<Rightarrow> (case decode_all E vs of Inl e \<Rightarrow> Inl e | Inr ks \<Rightarrow> Inr (k # ks)))"

text \<open>
  Lines 148 to 152: the default file is created when a file name is given and no file
  exists. These calls are outside the \<open>try\<close>: an error of \<open>mkdirSync\<close> or of \<open>writeFileSync\<close>
  leaves the function, whatever its code.
\<close>

definition create_default :: "env \<Rightarrow> js_value \<Rightarrow> state \<Rightarrow> error option \<times> state" where
  "create_default E filename s =
     (case filename of
        JString p \<Rightarrow>
          (case existsSync p s of
             (True, s1) \<Rightarrow> (None, s1)
           | (False, s1) \<Rightarrow>
               (case mkdirSync E (path_dirname E p)
                       (emit (ConsoleLog (''Notice: creating default firewall '' @ p)) s1) of
                  (Some e, s2) \<Rightarrow> (Some e, s2)
                | (None, s2) \<Rightarrow> writeFileSync E p header s2))
      | _ \<Rightarrow> (None, s))"

text \<open>The body of the \<open>try\<close> block.\<close>

definition read_and_parse :: "env \<Rightarrow> js_value \<Rightarrow> state \<Rightarrow> (error + key list) \<times> state" where
  "read_and_parse E filename s =
     (case (case filename of
              JString p \<Rightarrow>
                (case readFileSync E p s of
                   (Inl e, s1) \<Rightarrow> (Inl e, s1)
                 | (Inr d, s1) \<Rightarrow> (Inr (JString d), s1))
            | _ \<Rightarrow> (Inr filename, s)) of
        (Inl e, s1) \<Rightarrow> (Inl e, s1)
      | (Inr list, s1) \<Rightarrow>
          (decode_all E (configs_parse list), s1))"

definition readAuthorizedPeers :: "env \<Rightarrow> js_value \<Rightarrow> state \<Rightarrow> (error + key list) \<times> state" where
  "readAuthorizedPeers E filename s =
     (case create_default E filename s of
        (Some e, s1) \<Rightarrow> (Inl e, s1)
      | (None, s1) \<Rightarrow>
          (case read_and_parse E filename s1 of
             (Inl e, s2) \<Rightarrow> (if code e = Some ''ENOENT'' then (Inr [], s2) else (Inl e, s2))
           | (Inr ks, s2) \<Rightarrow> (Inr ks, s2)))"

subsection \<open>onFirewall\<close>

text \<open>
  The callback returns \<open>false\<close> to let the handshake go on and \<open>true\<close> to reject it. Its
  result here is the lines it prints and the boolean it returns, or the error it throws.
\<close>

fun firewall_loop :: "env \<Rightarrow> key \<Rightarrow> key list \<Rightarrow> string list \<times> (error + bool)" where
  "firewall_loop E remote [] =
     ([''Firewall denied: '' @ HypercoreId_encode E remote], Inr True)"
| "firewall_loop E remote (publicKey # rest) =
     (if remote = publicKey
      then ([''Firewall allowed: '' @ HypercoreId_encode E remote], Inr False)
      else firewall_loop E remote rest)"

fun onFirewall :: "env \<Rightarrow> allowed_value \<Rightarrow> key \<Rightarrow> string list \<times> (error + bool)" where
  "onFirewall E (Bool True) remote =
     ([''Firewall allowed: '' @ HypercoreId_encode E remote], Inr False)"
| "onFirewall E (Bool False) remote = ([], Inl TypeError)"
| "onFirewall E (Array ks) remote = firewall_loop E remote ks"

text \<open>The decision of the firewall, as the transport reads the returned boolean.\<close>

datatype verdict = Allow | Deny

definition decide :: "env \<Rightarrow> allowed_value \<Rightarrow> key \<Rightarrow> verdict option" where
  "decide E a remote =
     (case snd (onFirewall E a remote) of
        Inl e \<Rightarrow> None
      | Inr True \<Rightarrow> Some Deny
      | Inr False \<Rightarrow> Some Allow)"

subsection \<open>The shutdown registry\<close>

text \<open>
  Modelled from the spec: the registry of graceful-goodbye, which is not part of the
  sources. \<open>goodbye(fn, position)\<close> registers a function under a position and returns the
  function that removes this registration again. On shutdown the positions run in
  ascending order; the functions of one position are all started, and the next position
  starts when all of them have finished.
\<close>

definition goodbye :: "action \<Rightarrow> nat \<Rightarrow> state \<Rightarrow> state" where
  "goodbye fn position s = emit (Goodbye fn position) (s\<lparr>registry := registry s @ [(position, fn)]\<rparr>)"

definition unregister :: "action \<Rightarrow> state \<Rightarrow> state" where
  "unregister fn s = s\<lparr>registry := filter (\<lambda>h. snd h \<noteq> fn) (registry s)\<rparr>"

definition position_handlers :: "nat \<Rightarrow> (nat \<times> action) list \<Rightarrow> action list" where
  "position_handlers p r = map snd (filter (\<lambda>h. fst h = p) r)"

definition run_position :: "(nat \<times> action) list \<Rightarrow> nat \<Rightarrow> event list" where
  "run_position r p = map Begin (position_handlers p r) @ map Finish (position_handlers p r)"

definition positions :: "(nat \<times> action) list \<Rightarrow> nat list" where
  "positions r = sort (remdups (map fst r))"

definition drain :: "(nat \<times> action) list \<Rightarrow> event list" where
  "drain r = concat (map (run_position r) (positions r))"

definition shutdown :: "state \<Rightarrow> state" where
  "shutdown s = s\<lparr>trace := trace s @ drain (registry s), registry := [], exited := True\<rparr>"

subsection \<open>cmd\<close>

definition emits :: "event list \<Rightarrow> state \<Rightarrow> state" where
  "emits es s = s\<lparr>trace := trace s @ es\<rparr>"

definition PROTOCOLS :: "string list" where
  "PROTOCOLS = [''shell'', ''upload'', ''download'', ''tunnel'']"

text \<open>
  \<open>options.protocol || PROTOCOLS\<close> is the array object \<open>PROTOCOLS\<close> itself when the option
  is absent, and the array that commander built otherwise. \<open>protocols === PROTOCOLS\<close>
  compares the objects, not their elements.
\<close>

datatype protocols_value = The_PROTOCOLS | From_option "string list"

definition protocols_of :: "options \<Rightarrow> protocols_value" where
  "protocols_of opts = (case opt_protocol opts of None \<Rightarrow> The_PROTOCOLS | Some ps \<Rightarrow> From_option ps)"

fun names :: "protocols_value \<Rightarrow> string list" where
  "names The_PROTOCOLS = PROTOCOLS"
| "names (From_option ps) = ps"

fun is_PROTOCOLS :: "protocols_value \<Rightarrow> bool" where
  "is_PROTOCOLS The_PROTOCOLS = True"
| "is_PROTOCOLS (From_option ps) = False"

text \<open>
  Modelled from the spec: \<^verbatim>\<open>keygen.js\<close>, which is not part of the sources; given a path it
  makes a fresh seed exist there.
\<close>

definition keygen :: "env \<Rightarrow> string \<Rightarrow> state \<Rightarrow> state" where
  "keygen E keyfile s = emit (Keygen keyfile) (s\<lparr>files := (files s)(keyfile \<mapsto> keygen_seed E)\<rparr>)"

text \<open>Lines 46 to 53: the variable \<open>allowed\<close>, the first read of the file and the watcher.\<close>

definition firewall_setup :: "env \<Rightarrow> options \<Rightarrow> state \<Rightarrow> state" where
  "firewall_setup E opts s =
     (let firewall = path_resolve E (opt_firewall opts);
          s1 = s\<lparr>allowed := Bool (opt_disableFirewall opts)\<rparr>
      in if opt_disableFirewall opts then s1
         else (case readAuthorizedPeers E (JString firewall) s1 of
                 (Inl e, s2) \<Rightarrow> throw e s2
               | (Inr ks, s2) \<Rightarrow>
                   goodbye UnwatchFirewall 3
                     (emit (ReadFileLive firewall) (s2\<lparr>allowed := Array ks, watcher := True\<rparr>))))"

text \<open>Lines 67 to 74: what is printed after a successful listen.\<close>

definition banner :: "env \<Rightarrow> protocols_value \<Rightarrow> key \<Rightarrow> string list" where
  "banner E protocols publicKey =
     (if is_PROTOCOLS protocols
      then [''To connect to this shell, on another computer run:'',
            ''hypershell '' @ HypercoreId_encode E publicKey]
      else [''Running server with restricted protocols'',
            ''Server key: '' @ HypercoreId_encode E publicKey]) @ [[]]"

text \<open>Lines 54 to 74: the identity, the node, the server and its listening.\<close>

definition start_server :: "env \<Rightarrow> options \<Rightarrow> string \<Rightarrow> state \<Rightarrow> state" where
  "start_server E opts keyfile s =
     (case readFileSync E keyfile s of
        (Inl e, s1) \<Rightarrow> throw e s1
      | (Inr d, s1) \<Rightarrow>
          (case HypercoreId_decode E (Some (String_trim E d)) of
             None \<Rightarrow> throw DecodeError s1
           | Some seed \<Rightarrow>
               (let publicKey = DHT_keyPair E seed;
                    s2 = goodbye NodeDestroy 3 (emit (NewDHT (opt_testnet opts)) s1);
                    s3 = goodbye ServerClose 2 (emit CreateServer s2);
                    s4 = emit (Listen publicKey) s3
                in case listen_error E of
                     Some e \<Rightarrow> throw e s4
                   | None \<Rightarrow> emits (map ConsoleLog (banner E (protocols_of opts) publicKey)) s4)))"

text \<open>Lines 42 to 44: the seed file is generated when it does not exist.\<close>

definition ensure_key :: "env \<Rightarrow> string \<Rightarrow> state \<Rightarrow> state" where
  "ensure_key E keyfile s =
     (case existsSync keyfile s of
        (True, s1) \<Rightarrow> s1
      | (False, s1) \<Rightarrow> keygen E keyfile s1)"

definition cmd :: "env \<Rightarrow> options \<Rightarrow> state \<Rightarrow> state" where
  "cmd E opts s =
     (let keyfile = path_resolve E (opt_f opts);
          s2 = ensure_key E keyfile s;
          s3 = firewall_setup E opts s2
      in if crashed s3 \<noteq> None then s3 else start_server E opts keyfile s3)"

subsection \<open>onconnection\<close>

text \<open>Lines 114 to 144: one binding for each of the four names that \<open>protocols\<close> includes.\<close>

definition mux_pairs :: "string list \<Rightarrow> (string \<times> handler) list" where
  "mux_pairs protocols =
     (if ''shell'' \<in> set protocols then [(''hypershell'', ShellServer)] else []) @
     (if ''upload'' \<in> set protocols then [(''hypershell-upload'', UploadServer)] else []) @
     (if ''download'' \<in> set protocols then [(''hypershell-download'', DownloadServer)] else []) @
     (if ''tunnel'' \<in> set protocols then [(''hypershell-tunnel-local'', LocalTunnelServer)] else [])"

definition onconnection :: "env \<Rightarrow> protocols_value \<Rightarrow> key \<Rightarrow> state \<Rightarrow> state" where
  "onconnection E protocols remote s =
     (let c = accepted s;
          s1 = emit (SetKeepAlive c 5000) s;
          s2 = goodbye (SocketEndWait c) 1 s1;
          bindings = mux_pairs (names protocols);
          s3 = emits (NewProtomux c # map (\<lambda>b. MuxPair c (fst b)) bindings) s2
      in s3\<lparr>sockets := (sockets s3)(c \<mapsto> \<lparr>remotePublicKey = remote, paired = bindings\<rparr>),
            accepted := Suc c\<rparr>)"

text \<open>The listeners that \<open>onconnection\<close> installs on the socket.\<close>

definition on_end :: "nat \<Rightarrow> state \<Rightarrow> state" where
  "on_end c s = emit (SocketEnd c) s"

definition on_close :: "env \<Rightarrow> nat \<Rightarrow> socket \<Rightarrow> state \<Rightarrow> state" where
  "on_close E c sock s =
     (let s1 = emit (ConsoleLog (''Connection closed '' @ HypercoreId_encode E (remotePublicKey sock))) s;
          s2 = unregister (SocketEndWait c) s1
      in s2\<lparr>sockets := (sockets s2)(c := None)\<rparr>)"

definition on_error :: "string option \<Rightarrow> state \<Rightarrow> state" where
  "on_error error_code s =
     (if error_code = Some ''ECONNRESET'' \<or> error_code = Some ''ETIMEDOUT'' then s
      else emit (ConsoleError error_code) s)"

text \<open>
  The callback of a binding, run when the peer negotiates the protocol: \<open>channel\<close> says
  whether the new instance has a channel.
\<close>

definition on_pair :: "handler \<Rightarrow> nat \<Rightarrow> bool \<Rightarrow> state \<Rightarrow> state" where
  "on_pair h c channel s =
     (let s1 = emit (Construct h c) s in
      if \<not> channel then s1 else emit (Open h c) s1)"

text \<open>The callback of the file watcher (lines 49 to 51).\<close>

definition on_change :: "env \<Rightarrow> js_value \<Rightarrow> state \<Rightarrow> state" where
  "on_change E buf s =
     (case readAuthorizedPeers E buf s of
        (Inl e, s1) \<Rightarrow> throw e s1
      | (Inr ks, s1) \<Rightarrow> s1\<lparr>allowed := Array ks\<rparr>)"

subsection \<open>The running server\<close>

text \<open>
  What the environment does to a running server: a handshake presents a public key, a
  connection is accepted, the watched file changes, a socket ends, fails or closes, a peer
  opens a protocol on a socket (and the handler gets a channel or not), the process is told
  to shut down. An error thrown by a callback is not caught anywhere in the source: it
  escapes, and a process that has crashed or exited handles nothing.
\<close>

datatype input =
    Handshake key
  | Connection key
  | FileChange js_value
  | RemoteEnd nat
  | SocketError nat "string option"
  | SocketClose nat
  | RemoteOpen nat string bool
  | Shutdown

text \<open>
  The transport calls \<open>onFirewall\<close> with the key of the peer and reads the boolean that it
  returns.
\<close>

definition handshake :: "env \<Rightarrow> key \<Rightarrow> state \<Rightarrow> state" where
  "handshake E k s =
     (case onFirewall E (allowed s) k of
        (ls, Inl e) \<Rightarrow> throw e (emits (map ConsoleLog ls) s)
      | (ls, Inr r) \<Rightarrow> emit (Verdict k r) (emits (map ConsoleLog ls) s))"

text \<open>
  Modelled from the spec: Protomux, which is not part of the sources. The callback of a
  binding runs when the peer negotiates the protocol of that binding on a live socket; a
  protocol that has no binding on the socket starts nothing.
\<close>

definition remote_open :: "nat \<Rightarrow> string \<Rightarrow> bool \<Rightarrow> state \<Rightarrow> state" where
  "remote_open c name channel s =
     (case sockets s c of
        None \<Rightarrow> s
      | Some sock \<Rightarrow>
          (case map_of (paired sock) name of
             None \<Rightarrow> s
           | Some h \<Rightarrow> on_pair h c channel s))"

text \<open>
  The callback of the watcher runs only when the watcher was installed, and the listeners
  of a socket only while the socket is live.
\<close>

fun handle :: "env \<Rightarrow> options \<Rightarrow> input \<Rightarrow> state \<Rightarrow> state" where
  "handle E opts (Handshake k) s = handshake E k s"
| "handle E opts (Connection k) s = onconnection E (protocols_of opts) k s"
| "handle E opts (FileChange buf) s = (if watcher s then on_change E buf s else s)"
| "handle E opts (RemoteEnd c) s = (case sockets s c of None \<Rightarrow> s | Some sock \<Rightarrow> on_end c s)"
| "handle E opts (SocketError c error_code) s =
     (case sockets s c of None \<Rightarrow> s | Some sock \<Rightarrow> on_error error_code s)"
| "handle E opts (SocketClose c) s =
     (case sockets s c of None \<Rightarrow> s | Some sock \<Rightarrow> on_close E c sock s)"
| "handle E opts (RemoteOpen c name channel) s = remote_open c name channel s"
| "handle E opts Shutdown s = shutdown s"

definition step :: "env \<Rightarrow> options \<Rightarrow> input \<Rightarrow> state \<Rightarrow> state" where
  "step E opts i s = (if live s then handle E opts i s else s)"

fun run :: "env \<Rightarrow> options \<Rightarrow> input list \<Rightarrow> state \<Rightarrow> state" where
  "run E opts [] s = s"
| "run E opts (i # ins) s = run E opts ins (step E opts i s)"

definition server :: "env \<Rightarrow> options \<Rightarrow> (string \<rightharpoonup> string) \<Rightarrow> input list \<Rightarrow> state" where
  "server E opts fs ins = run E opts ins (cmd E opts (init fs))"

subsection \<open>An instance of the collaborators\<close>

text \<open>
  Modelled from the spec: a small instance of the modules outside the file, on which the
  model runs on concrete inputs. A key is written in hexadecimal, two digits to the byte
  (of any length here, to keep the examples short). Paths are taken as resolved, the public
  key of a seed is the seed, and the operating system refuses no call.
\<close>

definition hex_digit :: "char \<Rightarrow> nat option" where
  "hex_digit c =
     (let n = (of_char c :: nat) in
      if 48 \<le> n \<and> n \<le> 57 then Some (n - 48)
      else if 97 \<le> n \<and> n \<le> 102 then Some (n - 87)
      else None)"

fun hex_bytes :: "string \<Rightarrow> key option" where
  "hex_bytes [] = Some []"
| "hex_bytes [a] = None"
| "hex_bytes (a # b # cs) =
     (case hex_digit a of
        None \<Rightarrow> None
      | Some x \<Rightarrow>
          (case hex_digit b of
             None \<Rightarrow> None
           | Some y \<Rightarrow>
               (case hex_bytes cs of
                  None \<Rightarrow> None
                | Some ks \<Rightarrow> Some (of_nat (16 * x + y) # ks))))"

fun sample_decode :: "string option \<Rightarrow> key option" where
  "sample_decode None = None"
| "sample_decode (Some []) = None"
| "sample_decode (Some (c # cs)) = hex_bytes (c # cs)"

definition hex_char :: "nat \<Rightarrow> char" where
  "hex_char n = (if n < 10 then char_of (48 + n) else char_of (87 + n))"

definition sample_encode :: "key \<Rightarrow> string" where
  "sample_encode k = concat (map (\<lambda>b. [hex_char (unat b div 16), hex_char (unat b mod 16)]) k)"

definition is_space :: "char \<Rightarrow> bool" where
  "is_space c = (c = CHR '' '' \<or> c = CHR 0x0A \<or> c = CHR 0x0D \<or> c = CHR 0x09)"

definition sample_trim :: "string \<Rightarrow> string" where
  "sample_trim d = rev (dropWhile is_space (rev (dropWhile is_space d)))"

definition sample_dirname :: "string \<Rightarrow> string" where
  "sample_dirname p = rev (drop 1 (dropWhile (\<lambda>c. c \<noteq> CHR ''/'') (rev p)))"

definition sample_env :: env where
  "sample_env = \<lparr>path_resolve = (\<lambda>p. p), path_dirname = sample_dirname,
     String_trim = sample_trim,
     HypercoreId_decode = sample_decode, HypercoreId_encode = sample_encode,
     DHT_keyPair = (\<lambda>seed. seed), keygen_seed = ''5eed'', listen_error = None,
     fs_error = (\<lambda>call. None)\<rparr>"





subsection \<open>Sample runs\<close>

text \<open>
  The configurations and file systems of the runs on which the properties are tried: a
  server behind its firewall with the default protocols, the same with the firewall
  disabled, with all four protocols named by the option, and with the shell alone.
\<close>

definition sample_options :: options where
  "sample_options = \<lparr>opt_f = ''/h/peer'', opt_firewall = ''/h/authorized_peers'',
     opt_disableFirewall = False, opt_protocol = None, opt_testnet = False\<rparr>"

definition sample_files :: "string \<rightharpoonup> string" where
  "sample_files = [''/h/peer'' \<mapsto> ''5eed'' @ [CHR 0x0A],
     ''/h/authorized_peers'' \<mapsto> ''# peers'' @ [CHR 0x0A] @ ''a1b2 alice'' @ [CHR 0x0A]]"

definition disabled_options :: options where
  "disabled_options = sample_options\<lparr>opt_disableFirewall := True\<rparr>"

definition explicit_options :: options where
  "explicit_options = sample_options\<lparr>opt_protocol := Some [''shell'', ''upload'', ''download'', ''tunnel'']\<rparr>"

text \<open>A server started with \<open>--protocol shell\<close>.\<close>

definition shell_only_options :: options where
  "shell_only_options = sample_options\<lparr>opt_protocol := Some [''shell'']\<rparr>"

text \<open>A file system with a seed file and no authorized-peers file.\<close>

definition key_only_files :: "string \<rightharpoonup> string" where
  "key_only_files = [''/h/peer'' \<mapsto> ''5eed'']"




subsection \<open>Names used in the statements\<close>

text \<open>
  The four configured names, with the protocol that the binding of each name pairs on the
  multiplexer and the class that its callback instantiates (lines 114 to 144).
\<close>

definition protocol_name :: "string \<Rightarrow> string" where
  "protocol_name n =
     (if n = ''shell'' then ''hypershell''
      else if n = ''upload'' then ''hypershell-upload''
      else if n = ''download'' then ''hypershell-download''
      else ''hypershell-tunnel-local'')"

definition handler_class :: "string \<Rightarrow> handler" where
  "handler_class n =
     (if n = ''shell'' then ShellServer
      else if n = ''upload'' then UploadServer
      else if n = ''download'' then DownloadServer
      else LocalTunnelServer)"

text \<open>The functions that \<open>cmd\<close> registers at position 3, in the order of their registration.\<close>

definition last_tier :: "options \<Rightarrow> action list" where
  "last_tier opts = (if opt_disableFirewall opts then [NodeDestroy] else [UnwatchFirewall, NodeDestroy])"

text \<open>The events that are calls on the file system, the key generator or the file watcher.\<close>

fun file_event :: "event \<Rightarrow> bool" where
  "file_event (ExistsSync p) = True"
| "file_event (MkdirSync p) = True"
| "file_event (WriteFileSync p d) = True"
| "file_event (ReadFileSync p) = True"
| "file_event (Keygen p) = True"
| "file_event (ReadFileLive p) = True"
| "file_event e = False"


subsection \<open>Invariants of a run\<close>

text \<open>The registrations that \<open>cmd\<close> makes, in the order of the source.\<close>

definition base_registry :: "options \<Rightarrow> (nat \<times> action) list" where
  "base_registry opts =
     (if opt_disableFirewall opts then [] else [(3, UnwatchFirewall)]) @
     [(3, NodeDestroy), (2, ServerClose)]"

text \<open>
  Every live socket was numbered below the count of accepted sockets, carries the bindings
  of the configured protocols, and has its shutdown function registered at position 1.
\<close>

definition sockets_ok :: "options \<Rightarrow> state \<Rightarrow> bool" where
  "sockets_ok opts s =
     (\<forall>c sock. sockets s c = Some sock \<longrightarrow>
        c < accepted s \<and> paired sock = mux_pairs (names (protocols_of opts)) \<and>
        (\<not> exited s \<longrightarrow> (1, SocketEndWait c) \<in> set (registry s)))"

text \<open>
  Until shutdown the registry holds the registrations of \<open>cmd\<close> and, at position 1, only
  functions of live sockets; nothing of the registry has run.
\<close>

definition registry_ok :: "options \<Rightarrow> state \<Rightarrow> bool" where
  "registry_ok opts s =
     (\<not> exited s \<longrightarrow>
        filter (\<lambda>h. fst h \<noteq> 1) (registry s) = base_registry opts \<and>
        (\<forall>h \<in> set (registry s). fst h = 1 \<longrightarrow> (\<exists>c. snd h = SocketEndWait c \<and> sockets s c \<noteq> None)) \<and>
        (\<forall>a. Begin a \<notin> set (trace s)))"

text \<open>
  Every binding registered and every handler instantiated or opened in a run belongs to
  the bindings of the configured protocols.
\<close>

definition pairs_ok :: "options \<Rightarrow> state \<Rightarrow> bool" where
  "pairs_ok opts s =
     (\<forall>e \<in> set (trace s).
        (\<forall>c name. e = MuxPair c name \<longrightarrow> name \<in> fst ` set (mux_pairs (names (protocols_of opts)))) \<and>
        (\<forall>h c. e = Construct h c \<longrightarrow> h \<in> snd ` set (mux_pairs (names (protocols_of opts)))) \<and>
        (\<forall>h c. e = Open h c \<longrightarrow> h \<in> snd ` set (mux_pairs (names (protocols_of opts)))))"

text \<open>
  What a run with the firewall disabled leaves alone: \<open>allowed\<close> stays \<open>true\<close>, no watcher is
  installed, the only calls on files are those on the seed file, the function that stops
  the watcher is never registered, and no file but the seed file changes.
\<close>

definition store_untouched :: "env \<Rightarrow> options \<Rightarrow> (string \<rightharpoonup> string) \<Rightarrow> state \<Rightarrow> bool" where
  "store_untouched E opts fs s =
     (allowed s = Bool True \<and> \<not> watcher s \<and>
      (\<forall>e \<in> set (trace s). file_event e \<longrightarrow>
         e = ExistsSync (path_resolve E (opt_f opts)) \<or> e = Keygen (path_resolve E (opt_f opts)) \<or>
         e = ReadFileSync (path_resolve E (opt_f opts))) \<and>
      (\<forall>e \<in> set (trace s). \<forall>n. e \<noteq> Goodbye UnwatchFirewall n) \<and>
      (\<forall>h \<in> set (registry s). snd h \<noteq> UnwatchFirewall) \<and>
      (\<forall>p. p \<noteq> path_resolve E (opt_f opts) \<longrightarrow> files s p = fs p))"

text \<open>
  A socket that has closed: its number is spent, it is not among the live sockets, its
  shutdown function is not registered and has never been started.
\<close>

definition closed_for_good :: "nat \<Rightarrow> state \<Rightarrow> bool" where
  "closed_for_good c s =
     (c < accepted s \<and> sockets s c = None \<and> SocketEndWait c \<notin> snd ` set (registry s) \<and>
      Begin (SocketEndWait c) \<notin> set (trace s))"

text \<open>
  A step that changes the files and the trace only, and adds only calls on the file system
  and printed lines to the trace.
\<close>

definition only_files :: "state \<Rightarrow> state \<Rightarrow> bool" where
  "only_files s s' =
     (allowed s' = allowed s \<and> watcher s' = watcher s \<and> registry s' = registry s \<and>
      sockets s' = sockets s \<and> accepted s' = accepted s \<and> crashed s' = crashed s \<and>
      exited s' = exited s \<and>
      (\<forall>e \<in> set (trace s'). e \<in> set (trace s) \<or> file_event e \<or> (\<exists>m. e = ConsoleLog m)))"

section \<open>Properties\<close>

subsection \<open>Auxiliary facts\<close>

text \<open>
  The definitions of the primitive effects and of the callbacks, to unfold them together.
  \<open>readAuthorizedPeers\<close> changes the files and the trace only, and adds only file-system
  calls and printed lines to the trace.
\<close>

lemmas fs_defs = existsSync_def mkdirSync_def writeFileSync_def readFileSync_def emit_def
  emits_def throw_def

lemmas handler_defs = handshake_def onconnection_def on_change_def on_end_def on_error_def
  on_close_def remote_open_def on_pair_def shutdown_def goodbye_def unregister_def

lemma only_files_trans: "only_files s s1 \<Longrightarrow> only_files s1 s2 \<Longrightarrow> only_files s s2"
  unfolding only_files_def by (auto dest: bspec)

lemma only_files_emit:
  "file_event e \<or> (\<exists>m. e = ConsoleLog m) \<Longrightarrow> only_files s (emit e s)"
  by (auto simp: only_files_def emit_def)

lemma snd_mkdirSync: "snd (mkdirSync E d s) = emit (MkdirSync d) s"
  by (simp add: mkdirSync_def Let_def split: option.splits)

lemma snd_readFileSync: "snd (readFileSync E p s) = emit (ReadFileSync p) s"
  by (simp add: readFileSync_def Let_def split: option.splits)

lemma only_files_writeFileSync: "only_files s (snd (writeFileSync E p d s))"
  by (simp add: writeFileSync_def only_files_def emit_def Let_def split: option.splits)

lemma only_files_create_default: "only_files s (snd (create_default E v s))"
proof (cases v)
  case (JString p)
  show ?thesis
  proof (cases "files s p")
    case None
    let ?s2 = "emit (ConsoleLog (''Notice: creating default firewall '' @ p)) (emit (ExistsSync p) s)"
    let ?s3 = "emit (MkdirSync (path_dirname E p)) ?s2"
    have c: "snd (create_default E v s) = ?s3 \<or> snd (create_default E v s) = snd (writeFileSync E p header ?s3)"
      using JString None snd_mkdirSync[of E "path_dirname E p" ?s2]
      by (cases "mkdirSync E (path_dirname E p) ?s2"; cases "fst (mkdirSync E (path_dirname E p) ?s2)")
         (simp_all add: create_default_def existsSync_def)
    have 3: "only_files s ?s3"
      by (intro only_files_trans[OF only_files_trans[OF only_files_emit only_files_emit] only_files_emit]) auto
    from c show ?thesis
      using 3 only_files_trans[OF 3 only_files_writeFileSync] by auto
  next
    case (Some d)
    with JString show ?thesis
      by (simp add: create_default_def existsSync_def only_files_emit)
  qed
next
  case (JBuffer d)
  then show ?thesis
    by (simp add: create_default_def only_files_def)
next
  case JNull
  then show ?thesis
    by (simp add: create_default_def only_files_def)
qed

lemma only_files_read_and_parse: "only_files s (snd (read_and_parse E v s))"
proof (cases v)
  case (JString p)
  have "snd (read_and_parse E v s) = emit (ReadFileSync p) s"
    using JString snd_readFileSync[of E p s]
    by (cases "readFileSync E p s"; cases "fst (readFileSync E p s)")
       (simp_all add: read_and_parse_def)
  then show ?thesis
    by (simp add: only_files_emit)
next
  case (JBuffer d)
  then show ?thesis
    by (simp add: read_and_parse_def only_files_def)
next
  case JNull
  then show ?thesis
    by (simp add: read_and_parse_def only_files_def)
qed

lemma only_files_readAuthorizedPeers: "only_files s (snd (readAuthorizedPeers E v s))"
proof -
  let ?s1 = "snd (create_default E v s)"
  have "snd (readAuthorizedPeers E v s) = ?s1 \<or> snd (readAuthorizedPeers E v s) = snd (read_and_parse E v ?s1)"
    by (cases "create_default E v s"; cases "fst (create_default E v s)";
        cases "read_and_parse E v ?s1"; cases "fst (read_and_parse E v ?s1)")
       (auto simp: readAuthorizedPeers_def)
  then show ?thesis
    using only_files_create_default[of s E v]
      only_files_trans[OF only_files_create_default only_files_read_and_parse, of s E v E v]
    by auto
qed

lemma readAuthorizedPeers_frame:
  "allowed (snd (readAuthorizedPeers E v s)) = allowed s \<and>
   watcher (snd (readAuthorizedPeers E v s)) = watcher s \<and>
   registry (snd (readAuthorizedPeers E v s)) = registry s \<and>
   sockets (snd (readAuthorizedPeers E v s)) = sockets s \<and>
   accepted (snd (readAuthorizedPeers E v s)) = accepted s \<and>
   crashed (snd (readAuthorizedPeers E v s)) = crashed s \<and>
   exited (snd (readAuthorizedPeers E v s)) = exited s"
  using only_files_readAuthorizedPeers[of s E v] by (simp add: only_files_def)

lemma readAuthorizedPeers_trace:
  "e \<in> set (trace (snd (readAuthorizedPeers E v s))) \<Longrightarrow>
     e \<in> set (trace s) \<or> file_event e \<or> (\<exists>m. e = ConsoleLog m)"
  using only_files_readAuthorizedPeers[of s E v] by (simp add: only_files_def)

text \<open>
  A property that \<open>cmd\<close> establishes and every callback preserves holds after every run; a
  process that is not live stays as it is.
\<close>

lemma run_invariant:
  assumes "P s" and "\<And>i s. P s \<Longrightarrow> live s \<Longrightarrow> P (handle E opts i s)"
  shows "P (run E opts ins s)"
  using assms(1)
proof (induction ins arbitrary: s)
  case Nil
  then show ?case by simp
next
  case (Cons i ins)
  have "P (step E opts i s)"
    using Cons.prems assms(2) by (simp add: step_def)
  then show ?case using Cons.IH by simp
qed

lemma run_not_live: "\<not> live s \<Longrightarrow> run E opts ins s = s"
  by (induction ins) (simp_all add: step_def)

lemma sockets_ok_handle:
  assumes "sockets_ok opts s"
  shows "sockets_ok opts (handle E opts i s)"
proof (cases i)
  case (FileChange buf)
  then show ?thesis
    using assms readAuthorizedPeers_frame[of E buf s]
    by (auto simp: sockets_ok_def on_change_def throw_def split: prod.splits sum.splits)
next
  case (Connection k)
  then show ?thesis
    using assms by (auto simp: sockets_ok_def handler_defs fs_defs Let_def less_Suc_eq)
next
  case (SocketClose c)
  then show ?thesis
    using assms by (auto simp: sockets_ok_def handler_defs fs_defs Let_def split: option.splits)
qed (use assms in \<open>auto simp: sockets_ok_def handler_defs fs_defs Let_def
        split: option.splits prod.splits sum.splits\<close>)

lemma registry_ok_handle:
  assumes "registry_ok opts s"
  shows "registry_ok opts (handle E opts i s)"
proof (cases i)
  case (FileChange buf)
  have "\<forall>a. Begin a \<in> set (trace (snd (readAuthorizedPeers E buf s))) \<longrightarrow> Begin a \<in> set (trace s)"
    using readAuthorizedPeers_trace by fastforce
  with FileChange show ?thesis
    using assms readAuthorizedPeers_frame[of E buf s]
    by (auto simp: registry_ok_def on_change_def throw_def split: prod.splits sum.splits)
next
  case (Connection k)
  then show ?thesis
    using assms
    apply (auto simp: registry_ok_def handler_defs fs_defs Let_def)
    apply (drule (1) bspec)
    apply auto
    done
next
  case (SocketClose c)
  show ?thesis
  proof (cases "sockets s c")
    case None
    with SocketClose assms show ?thesis by simp
  next
    case (Some sock)
    let ?s' = "handle E opts i s"
    have reg: "registry ?s' = filter (\<lambda>h. snd h \<noteq> SocketEndWait c) (registry s)"
      and tr: "trace ?s' = trace s @ [ConsoleLog (''Connection closed '' @ HypercoreId_encode E (remotePublicKey sock))]"
      and so: "sockets ?s' = (sockets s)(c := None)"
      and ex: "exited ?s' = exited s"
      using SocketClose Some by (simp_all add: handler_defs fs_defs Let_def)
    show ?thesis
      unfolding registry_ok_def
    proof (intro impI conjI ballI allI)
      assume "\<not> exited ?s'"
      then have ok: "filter (\<lambda>h. fst h \<noteq> 1) (registry s) = base_registry opts"
        using assms ex by (simp add: registry_ok_def)
      have "filter (\<lambda>h. fst h \<noteq> 1) (registry ?s') =
            filter (\<lambda>h. snd h \<noteq> SocketEndWait c) (filter (\<lambda>h. fst h \<noteq> 1) (registry s))"
        by (simp add: reg conj_commute)
      also have "\<dots> = base_registry opts"
        unfolding ok by (simp add: base_registry_def)
      finally show "filter (\<lambda>h. fst h \<noteq> 1) (registry ?s') = base_registry opts" .
    next
      fix h
      assume "\<not> exited ?s'" and h: "h \<in> set (registry ?s')" "fst h = 1"
      then obtain c' where "snd h = SocketEndWait c'" "sockets s c' \<noteq> None"
        using assms ex reg by (auto simp: registry_ok_def)
      moreover have "c' \<noteq> c" using h calculation by (auto simp: reg)
      ultimately show "\<exists>c. snd h = SocketEndWait c \<and> sockets ?s' c \<noteq> None"
        by (auto simp: so)
    next
      fix a
      assume "\<not> exited ?s'"
      then show "Begin a \<notin> set (trace ?s')"
        using assms ex tr by (auto simp: registry_ok_def)
    qed
  qed
qed (use assms in \<open>auto simp: registry_ok_def handler_defs fs_defs Let_def
        split: option.splits prod.splits sum.splits\<close>)

text \<open>The definitions to unfold when a run is computed on the sample instance.\<close>

lemmas cmd_defs = server_def cmd_def ensure_key_def init_def firewall_setup_def start_server_def keygen_def
  readAuthorizedPeers_def create_default_def read_and_parse_def banner_def protocols_of_def

lemmas sample_defs = sample_env_def sample_options_def sample_files_def disabled_options_def
  explicit_options_def records_def two_fields_def is_record_def hex_digit_def sample_trim_def is_space_def
  sample_dirname_def header_def

lemma sample_start:
  "server sample_env sample_options sample_files [] =
     \<lparr>files = sample_files,
      trace = [ExistsSync ''/h/peer'', ExistsSync ''/h/authorized_peers'',
        ReadFileSync ''/h/authorized_peers'', ReadFileLive ''/h/authorized_peers'',
        Goodbye UnwatchFirewall 3, ReadFileSync ''/h/peer'', NewDHT False,
        Goodbye NodeDestroy 3, CreateServer, Goodbye ServerClose 2, Listen [0x5e, 0xed],
        ConsoleLog ''To connect to this shell, on another computer run:'',
        ConsoleLog (''hypershell '' @ sample_encode [0x5e, 0xed]), ConsoleLog []],
      allowed = Array [[0xa1, 0xb2]], watcher = True,
      registry = [(3, UnwatchFirewall), (3, NodeDestroy), (2, ServerClose)],
      sockets = Map.empty, accepted = 0, crashed = None, exited = False\<rparr>"
  by (simp add: cmd_defs sample_defs fs_defs goodbye_def Let_def)

text \<open>The loop of \<open>onFirewall\<close> allows on membership.\<close>

lemma firewall_loop_eq:
  "firewall_loop E k ks =
     (if k \<in> set ks then ([''Firewall allowed: '' @ HypercoreId_encode E k], Inr False)
      else ([''Firewall denied: '' @ HypercoreId_encode E k], Inr True))"
  by (induction ks) auto

text \<open>\<open>cmd\<close> in its three stages: the seed file, the firewall, the server.\<close>

lemma firewall_setup_disabled:
  "opt_disableFirewall opts \<Longrightarrow> firewall_setup E opts s = s\<lparr>allowed := Bool True\<rparr>"
  by (simp add: firewall_setup_def)

lemma firewall_setup_enabled:
  "\<not> opt_disableFirewall opts \<Longrightarrow>
     firewall_setup E opts s =
       (case readAuthorizedPeers E (JString (path_resolve E (opt_firewall opts))) (s\<lparr>allowed := Bool False\<rparr>) of
          (Inl e, s2) \<Rightarrow> throw e s2
        | (Inr ks, s2) \<Rightarrow>
            goodbye UnwatchFirewall 3
              (emit (ReadFileLive (path_resolve E (opt_firewall opts))) (s2\<lparr>allowed := Array ks, watcher := True\<rparr>)))"
  by (simp add: firewall_setup_def Let_def)

lemma firewall_setup_frame:
  "sockets (firewall_setup E opts s) = sockets s \<and>
   accepted (firewall_setup E opts s) = accepted s \<and>
   exited (firewall_setup E opts s) = exited s"
proof (cases "opt_disableFirewall opts")
  case True
  then show ?thesis by (simp add: firewall_setup_disabled)
next
  case False
  show ?thesis
  proof (cases "readAuthorizedPeers E (JString (path_resolve E (opt_firewall opts))) (s\<lparr>allowed := Bool False\<rparr>)")
    case (Pair r s2)
    with readAuthorizedPeers_frame[of E "JString (path_resolve E (opt_firewall opts))" "s\<lparr>allowed := Bool False\<rparr>"]
    show ?thesis
      by (cases r) (simp_all add: firewall_setup_enabled[OF False] goodbye_def fs_defs)
  qed
qed

lemma firewall_setup_ok:
  assumes "crashed (firewall_setup E opts s) = None"
  shows "registry (firewall_setup E opts s) =
           registry s @ (if opt_disableFirewall opts then [] else [(3, UnwatchFirewall)]) \<and>
         watcher (firewall_setup E opts s) = (if opt_disableFirewall opts then watcher s else True) \<and>
         (if opt_disableFirewall opts then allowed (firewall_setup E opts s) = Bool True
          else \<exists>ks. allowed (firewall_setup E opts s) = Array ks)"
proof (cases "opt_disableFirewall opts")
  case True
  then show ?thesis by (simp add: firewall_setup_disabled)
next
  case False
  show ?thesis
  proof (cases "readAuthorizedPeers E (JString (path_resolve E (opt_firewall opts))) (s\<lparr>allowed := Bool False\<rparr>)")
    case (Pair r s2)
    with assms readAuthorizedPeers_frame[of E "JString (path_resolve E (opt_firewall opts))" "s\<lparr>allowed := Bool False\<rparr>"]
    show ?thesis
      by (cases r) (simp_all add: firewall_setup_enabled[OF False] False goodbye_def fs_defs)
  qed
qed

lemma firewall_setup_trace:
  assumes "e \<in> set (trace (firewall_setup E opts s))"
  shows "e \<in> set (trace s) \<or> file_event e \<or> (\<exists>m. e = ConsoleLog m) \<or> (\<exists>a n. e = Goodbye a n)"
proof (cases "opt_disableFirewall opts")
  case True
  with assms show ?thesis by (simp add: firewall_setup_disabled)
next
  case False
  show ?thesis
  proof (cases "readAuthorizedPeers E (JString (path_resolve E (opt_firewall opts))) (s\<lparr>allowed := Bool False\<rparr>)")
    case (Pair r s2)
    have "e \<in> set (trace s2) \<Longrightarrow> e \<in> set (trace s) \<or> file_event e \<or> (\<exists>m. e = ConsoleLog m)"
      using readAuthorizedPeers_trace[of e E "JString (path_resolve E (opt_firewall opts))" "s\<lparr>allowed := Bool False\<rparr>"] Pair
      by simp
    with assms Pair show ?thesis
      by (cases r) (auto simp: firewall_setup_enabled[OF False] goodbye_def fs_defs)
  qed
qed

lemma start_server_frame:
  "sockets (start_server E opts kf s) = sockets s \<and>
   accepted (start_server E opts kf s) = accepted s \<and>
   exited (start_server E opts kf s) = exited s \<and>
   allowed (start_server E opts kf s) = allowed s \<and>
   watcher (start_server E opts kf s) = watcher s \<and>
   files (start_server E opts kf s) = files s"
  by (simp add: start_server_def goodbye_def fs_defs Let_def split: option.splits)

lemma start_server_ok:
  "crashed (start_server E opts kf s) = None \<Longrightarrow>
     registry (start_server E opts kf s) = registry s @ [(3, NodeDestroy), (2, ServerClose)]"
  by (auto simp: start_server_def goodbye_def fs_defs Let_def split: option.splits)

lemma start_server_trace:
  "e \<in> set (trace (start_server E opts kf s)) \<Longrightarrow>
     e \<in> set (trace s) \<or> e = ReadFileSync kf \<or> (\<exists>m. e = ConsoleLog m) \<or> (\<exists>a n. e = Goodbye a n \<and> a \<noteq> UnwatchFirewall) \<or>
     (\<exists>b. e = NewDHT b) \<or> e = CreateServer \<or> (\<exists>k. e = Listen k)"
  by (auto simp: start_server_def goodbye_def fs_defs Let_def split: option.splits)

lemma cmd_eq:
  "cmd E opts s =
     (let s3 = firewall_setup E opts (ensure_key E (path_resolve E (opt_f opts)) s)
      in if crashed s3 \<noteq> None then s3 else start_server E opts (path_resolve E (opt_f opts)) s3)"
  by (simp add: cmd_def Let_def)

lemma ensure_key_init:
  "ensure_key E kf s =
     s\<lparr>files := (if files s kf = None then (files s)(kf \<mapsto> keygen_seed E) else files s),
       trace := trace s @ ExistsSync kf # (if files s kf = None then [Keygen kf] else [])\<rparr>"
  by (simp add: ensure_key_def keygen_def fs_defs)

lemma cmd_trace:
  assumes "e \<in> set (trace (cmd E opts (init fs)))"
  shows "file_event e \<or> (\<exists>m. e = ConsoleLog m) \<or> (\<exists>a n. e = Goodbye a n) \<or>
     (\<exists>b. e = NewDHT b) \<or> e = CreateServer \<or> (\<exists>k. e = Listen k)"
proof -
  let ?kf = "path_resolve E (opt_f opts)"
  let ?s2 = "ensure_key E ?kf (init fs)"
  let ?s3 = "firewall_setup E opts ?s2"
  have 2: "\<And>e. e \<in> set (trace ?s2) \<Longrightarrow> file_event e"
    by (auto simp: ensure_key_init init_def split: if_splits)
  have 3: "\<And>e. e \<in> set (trace ?s3) \<Longrightarrow> file_event e \<or> (\<exists>m. e = ConsoleLog m) \<or> (\<exists>a n. e = Goodbye a n)"
    using firewall_setup_trace 2 by blast
  from assms have "e \<in> set (trace ?s3) \<or> e \<in> set (trace (start_server E opts ?kf ?s3))"
    by (simp add: cmd_eq Let_def split: if_splits)
  then show ?thesis
    using 3 start_server_trace[of e E opts ?kf ?s3] by fastforce
qed

lemma cmd_sockets:
  "sockets (cmd E opts (init fs)) = Map.empty \<and> accepted (cmd E opts (init fs)) = 0 \<and>
   \<not> exited (cmd E opts (init fs))"
  by (simp add: cmd_eq Let_def firewall_setup_frame start_server_frame ensure_key_init init_def)

lemma cmd_registry:
  assumes "crashed (cmd E opts (init fs)) = None"
  shows "registry (cmd E opts (init fs)) = base_registry opts \<and>
     watcher (cmd E opts (init fs)) = (\<not> opt_disableFirewall opts) \<and>
     (if opt_disableFirewall opts then allowed (cmd E opts (init fs)) = Bool True
      else \<exists>ks. allowed (cmd E opts (init fs)) = Array ks)"
proof -
  let ?kf = "path_resolve E (opt_f opts)"
  let ?s2 = "ensure_key E ?kf (init fs)"
  let ?s3 = "firewall_setup E opts ?s2"
  from assms have ok: "crashed ?s3 = None" and c: "cmd E opts (init fs) = start_server E opts ?kf ?s3"
    by (auto simp: cmd_eq Let_def split: if_splits)
  have "registry ?s2 = [] \<and> \<not> watcher ?s2"
    by (simp add: ensure_key_init init_def)
  with firewall_setup_ok[OF ok] start_server_ok[of E opts ?kf ?s3] assms
  show ?thesis
    by (auto simp: c start_server_frame base_registry_def split: if_splits)
qed

lemma live_server: "live (server E opts fs ins) \<Longrightarrow> crashed (cmd E opts (init fs)) = None"
proof (rule ccontr)
  assume l: "live (server E opts fs ins)" and "crashed (cmd E opts (init fs)) \<noteq> None"
  then have "\<not> live (cmd E opts (init fs))" by (simp add: live_def)
  then have "server E opts fs ins = cmd E opts (init fs)"
    by (simp add: server_def run_not_live)
  with l \<open>\<not> live (cmd E opts (init fs))\<close> show False by simp
qed

lemma cmd_disabled:
  "opt_disableFirewall opts \<Longrightarrow>
     allowed (cmd E opts (init fs)) = Bool True \<and> \<not> watcher (cmd E opts (init fs))"
  by (simp add: cmd_eq Let_def firewall_setup_disabled start_server_frame ensure_key_init init_def)

lemma handle_disabled:
  "allowed s = Bool True \<and> \<not> watcher s \<Longrightarrow>
     allowed (handle E opts i s) = Bool True \<and> \<not> watcher (handle E opts i s)"
  by (cases i) (auto simp: handler_defs fs_defs Let_def split: option.splits)

lemma server_disabled:
  assumes "opt_disableFirewall opts"
  shows "allowed (server E opts fs ins) = Bool True \<and> \<not> watcher (server E opts fs ins)"
  unfolding server_def
  by (rule run_invariant) (use assms cmd_disabled handle_disabled in auto)

subsection \<open>The log of an allow decision\<close>

text \<open>
  C8, where the claim fails. The claim says that the allow decision of a run with the
  firewall disabled is logged distinguishably from an allow by a positive match. In the
  source both branches of \<open>onFirewall\<close> print the same line. Here the run with the firewall
  disabled holds \<open>true\<close> in \<open>allowed\<close>, the run behind the firewall holds the key \<open>a1b2\<close> of
  its file, and for this key \<open>onFirewall\<close> prints and returns the same in both.
\<close>

theorem disabled_allow_log_counterexample:
  "allowed (server sample_env disabled_options sample_files []) = Bool True \<and>
   allowed (server sample_env sample_options sample_files []) = Array [[0xa1, 0xb2]] \<and>
   onFirewall sample_env (Bool True) [0xa1, 0xb2] = onFirewall sample_env (Array [[0xa1, 0xb2]]) [0xa1, 0xb2]"
  by (simp add: cmd_defs sample_defs fs_defs goodbye_def Let_def)

text \<open>
  C8, as amended: when firewall enforcement is disabled for the run, \<open>allowed\<close> is \<open>true\<close>
  throughout the run, every peer is allowed, and the decision prints the one line
  \<open>Firewall allowed: <encoded key>\<close>, which is also what an allow by a positive match against
  the authorized peers prints and returns.
\<close>

theorem disabled_allow_log:
  assumes "opt_disableFirewall opts"
  shows "allowed (server E opts fs ins) = Bool True \<and>
         onFirewall E (Bool True) k = ([''Firewall allowed: '' @ HypercoreId_encode E k], Inr False) \<and>
         decide E (Bool True) k = Some Allow \<and>
         (k \<in> set ks \<longrightarrow> onFirewall E (Array ks) k = onFirewall E (Bool True) k)"
  using server_disabled[OF assms] by (simp add: firewall_loop_eq decide_def)

theorem disabled_allow_log_witness:
  "opt_disableFirewall disabled_options \<and>
   [0xa1, 0xb2] \<in> set [[0x01], [0xa1, 0xb2 :: 8 word]] \<and>
   allowed (server sample_env disabled_options sample_files [Handshake [0xa1, 0xb2]]) = Bool True \<and>
   onFirewall sample_env (Array [[0x01], [0xa1, 0xb2]]) [0xa1, 0xb2] =
     ([''Firewall allowed: '' @ HypercoreId_encode sample_env [0xa1, 0xb2]], Inr False)"
proof -
  have h: "opt_disableFirewall disabled_options"
    by (simp add: disabled_options_def)
  show ?thesis
    using h disabled_allow_log[OF h, of sample_env sample_files "[Handshake [0xa1, 0xb2]]" "[0xa1, 0xb2]" "[[0x01], [0xa1, 0xb2]]"]
    by simp
qed

subsection \<open>What is printed after a successful listen\<close>

text \<open>
  C9, where the claim fails. The claim says that the connection command is printed whenever
  the server runs the full set of protocols. When the option names all four protocols the
  server runs the full set, start-up succeeds, and the restricted-mode notice is printed
  instead of the connection command: \<open>protocols === PROTOCOLS\<close> compares the array objects.
\<close>

theorem listen_banner_counterexample:
  "set (names (protocols_of explicit_options)) = set PROTOCOLS \<and>
   crashed (server sample_env explicit_options sample_files []) = None \<and>
   ConsoleLog ''Running server with restricted protocols'' \<in> set (trace (server sample_env explicit_options sample_files [])) \<and>
   ConsoleLog ''To connect to this shell, on another computer run:'' \<notin> set (trace (server sample_env explicit_options sample_files []))"
  by (simp add: cmd_defs sample_defs fs_defs goodbye_def PROTOCOLS_def Let_def)

text \<open>
  C9, as amended: on a successful start-up the last effects of \<open>cmd\<close> are the listen and three
  printed lines. When the protocol option is absent these are the connection hint, the
  connection command with the encoded public key, and an empty line; when the option is
  given, whatever names it lists, they are the restricted-mode notice, the server key, and
  an empty line.
\<close>

theorem listen_banner:
  assumes "crashed (cmd E opts (init fs)) = None"
  shows "\<exists>pre publicKey. trace (cmd E opts (init fs)) = pre @ Listen publicKey #
           map ConsoleLog
            (case opt_protocol opts of
               None \<Rightarrow> [''To connect to this shell, on another computer run:'',
                         ''hypershell '' @ HypercoreId_encode E publicKey, []]
             | Some ps \<Rightarrow> [''Running server with restricted protocols'',
                            ''Server key: '' @ HypercoreId_encode E publicKey, []])"
proof -
  let ?kf = "path_resolve E (opt_f opts)"
  let ?s3 = "firewall_setup E opts (ensure_key E ?kf (init fs))"
  from assms have "crashed ?s3 = None" and "cmd E opts (init fs) = start_server E opts ?kf ?s3"
    by (auto simp: cmd_eq Let_def split: if_splits)
  with assms show ?thesis
    by (auto simp: start_server_def banner_def protocols_of_def goodbye_def fs_defs Let_def
          split: option.splits sum.splits prod.splits)
qed

theorem listen_banner_witness:
  "crashed (cmd sample_env explicit_options (init sample_files)) = None \<and>
   (\<exists>pre publicKey. trace (cmd sample_env explicit_options (init sample_files)) =
      pre @ Listen publicKey #
        map ConsoleLog [''Running server with restricted protocols'',
          ''Server key: '' @ HypercoreId_encode sample_env publicKey, []])"
proof -
  have h: "crashed (cmd sample_env explicit_options (init sample_files)) = None"
    by (simp add: cmd_defs sample_defs fs_defs goodbye_def Let_def)
  show ?thesis
    using h listen_banner[OF h] by (simp add: explicit_options_def)
qed

subsection \<open>The decision of the firewall\<close>

lemma handle_enabled:
  assumes "\<exists>ks. allowed s = Array ks"
  shows "\<exists>ks. allowed (handle E opts i s) = Array ks"
proof (cases i)
  case (FileChange buf)
  show ?thesis
  proof (cases "readAuthorizedPeers E buf s")
    case (Pair r s1)
    with assms FileChange readAuthorizedPeers_frame[of E buf s] show ?thesis
      by (cases r) (auto simp: on_change_def throw_def)
  qed
qed (use assms in \<open>auto simp: handler_defs fs_defs Let_def split: option.splits prod.splits sum.splits\<close>)

lemma server_enabled:
  assumes "\<not> opt_disableFirewall opts" and "crashed (cmd E opts (init fs)) = None"
  shows "\<exists>ks. allowed (server E opts fs ins) = Array ks"
  unfolding server_def
  by (rule run_invariant) (use assms cmd_registry[OF assms(2)] handle_enabled in auto)

lemma decide_Array:
  "decide E (Array ks) P = (if P \<in> set ks then Some Allow else Some Deny)"
  by (simp add: decide_def firewall_loop_eq)

text \<open>
  C1: for every public key \<open>P\<close> presented at a handshake of a running server: when the
  firewall is disabled for the run the decision is to allow; otherwise \<open>allowed\<close> holds the
  current list of authorized keys, and the decision is to allow exactly when some key of
  the list equals \<open>P\<close> byte for byte, and to deny otherwise. The handshake prints one line and
  hands the verdict to the transport.
\<close>

theorem firewall_decision:
  assumes "s = server E opts fs ins" and "live s"
  shows "(opt_disableFirewall opts \<longrightarrow> allowed s = Bool True \<and> decide E (allowed s) P = Some Allow) \<and>
         (\<not> opt_disableFirewall opts \<longrightarrow>
            (\<exists>ks. allowed s = Array ks \<and>
               (P \<in> set ks \<longrightarrow> decide E (allowed s) P = Some Allow) \<and>
               (P \<notin> set ks \<longrightarrow> decide E (allowed s) P = Some Deny))) \<and>
         (\<exists>line. trace (step E opts (Handshake P) s) =
            trace s @ [ConsoleLog line, Verdict P (decide E (allowed s) P = Some Deny)])"
proof (cases "opt_disableFirewall opts")
  case True
  then have "allowed s = Bool True"
    using server_disabled assms(1) by simp
  with True assms(2) show ?thesis
    by (simp add: decide_def step_def handshake_def fs_defs)
next
  case False
  have "crashed (cmd E opts (init fs)) = None"
    using assms live_server by simp
  then obtain ks where "allowed s = Array ks"
    using server_enabled[OF False] assms(1) by blast
  with False assms(2) show ?thesis
    by (simp add: decide_Array step_def handshake_def firewall_loop_eq fs_defs)
qed

theorem firewall_decision_witness:
  "live (server sample_env sample_options sample_files []) \<and>
   \<not> opt_disableFirewall sample_options \<and>
   allowed (server sample_env sample_options sample_files []) = Array [[0xa1, 0xb2]] \<and>
   decide sample_env (allowed (server sample_env sample_options sample_files [])) [0xa1, 0xb2] = Some Allow \<and>
   decide sample_env (allowed (server sample_env sample_options sample_files [])) [0xa1, 0xb3] = Some Deny"
proof -
  let ?s = "server sample_env sample_options sample_files []"
  have l: "live ?s"
    by (simp add: sample_start live_def)
  have d: "\<not> opt_disableFirewall sample_options"
    by (simp add: sample_options_def)
  have a: "allowed ?s = Array [[0xa1, 0xb2]]"
    by (simp add: sample_start)
  have "decide sample_env (allowed ?s) [0xa1, 0xb2] = Some Allow"
    using firewall_decision[OF refl l, of "[0xa1, 0xb2]"] d by (simp add: a)
  moreover have "decide sample_env (allowed ?s) [0xa1, 0xb3] = Some Deny"
    using firewall_decision[OF refl l, of "[0xa1, 0xb3]"] d by (simp add: a)
  ultimately show ?thesis
    using l d a by simp
qed

subsection \<open>A disabled firewall and the backing store\<close>

lemma start_server_registry:
  "h \<in> set (registry (start_server E opts kf s)) \<Longrightarrow>
     h \<in> set (registry s) \<or> snd h = NodeDestroy \<or> snd h = ServerClose"
  by (auto simp: start_server_def goodbye_def fs_defs Let_def split: option.splits)

lemma cmd_store_untouched:
  assumes "opt_disableFirewall opts"
  shows "store_untouched E opts fs (cmd E opts (init fs))"
proof -
  let ?kf = "path_resolve E (opt_f opts)"
  let ?s3 = "(ensure_key E ?kf (init fs))\<lparr>allowed := Bool True\<rparr>"
  have 3: "store_untouched E opts fs ?s3"
    by (auto simp: store_untouched_def ensure_key_init init_def)
  have c: "cmd E opts (init fs) = ?s3 \<or> cmd E opts (init fs) = start_server E opts ?kf ?s3"
    by (simp add: cmd_eq Let_def firewall_setup_disabled[OF assms])
  have "store_untouched E opts fs (start_server E opts ?kf ?s3)"
    unfolding store_untouched_def
  proof (intro conjI ballI allI impI)
    fix e assume "e \<in> set (trace (start_server E opts ?kf ?s3))" "file_event e"
    then show "e = ExistsSync ?kf \<or> e = Keygen ?kf \<or> e = ReadFileSync ?kf"
      using start_server_trace[of e E opts ?kf ?s3] 3 by (auto simp: store_untouched_def)
  next
    fix e n assume "e \<in> set (trace (start_server E opts ?kf ?s3))"
    then show "e \<noteq> Goodbye UnwatchFirewall n"
      using start_server_trace[of e E opts ?kf ?s3] 3 by (auto simp: store_untouched_def)
  next
    fix h assume "h \<in> set (registry (start_server E opts ?kf ?s3))"
    then show "snd h \<noteq> UnwatchFirewall"
      using start_server_registry[of h E opts ?kf ?s3] 3 by (auto simp: store_untouched_def)
  qed (use 3 in \<open>simp_all add: start_server_frame store_untouched_def\<close>)
  with 3 c show ?thesis by auto
qed

lemma drain_events:
  "e \<in> set (drain r) \<Longrightarrow> (\<exists>a. e = Begin a) \<or> (\<exists>a. e = Finish a)"
  by (auto simp: drain_def run_position_def)

lemma handle_store_untouched:
  assumes "store_untouched E opts fs s"
  shows "store_untouched E opts fs (handle E' opts' i s)"
proof (cases i)
  case Shutdown
  with assms drain_events[of _ "registry s"] show ?thesis
    by (fastforce simp: store_untouched_def shutdown_def)
qed (use assms in \<open>auto simp: store_untouched_def handler_defs fs_defs Let_def split: option.splits\<close>)

lemma server_store_untouched:
  assumes "opt_disableFirewall opts"
  shows "store_untouched E opts fs (server E opts fs ins)"
  unfolding server_def
  by (rule run_invariant) (use cmd_store_untouched[OF assms] handle_store_untouched in auto)

text \<open>
  C10: when the flag that disables the firewall is set, in every run of the server (start-up
  and whatever the environment does afterwards) \<open>allowed\<close> is \<open>true\<close>, no watcher is installed
  and the function that stops it is never registered for shutdown; the only calls on files are
  \<open>existsSync\<close>, the key generator and \<open>readFileSync\<close> on the seed file, so that no default
  file is written and every file other than the seed file is as it was. The authorized-peers
  file is among these whenever its path is not the path given for the seed file.
\<close>

theorem disabled_firewall_store_untouched:
  assumes "opt_disableFirewall opts" and "s = server E opts fs ins"
  shows "allowed s = Bool True \<and> \<not> watcher s \<and>
      (\<forall>e \<in> set (trace s). file_event e \<longrightarrow>
         e = ExistsSync (path_resolve E (opt_f opts)) \<or> e = Keygen (path_resolve E (opt_f opts)) \<or>
         e = ReadFileSync (path_resolve E (opt_f opts))) \<and>
      (\<forall>e \<in> set (trace s). \<forall>n. e \<noteq> Goodbye UnwatchFirewall n) \<and>
      (\<forall>h \<in> set (registry s). snd h \<noteq> UnwatchFirewall) \<and>
      (\<forall>p. p \<noteq> path_resolve E (opt_f opts) \<longrightarrow> files s p = fs p)"
  using server_store_untouched[OF assms(1), of E fs ins] assms(2)
  by (simp add: store_untouched_def)

lemma sample_disabled_run:
  "server sample_env disabled_options key_only_files
     [Handshake [0xa1, 0xb2], FileChange (JBuffer ''a1b2 alice''), Connection [0xa1, 0xb2]] =
   \<lparr>files = key_only_files,
    trace = [ExistsSync ''/h/peer'', ReadFileSync ''/h/peer'', NewDHT False,
        Goodbye NodeDestroy 3, CreateServer, Goodbye ServerClose 2, Listen [0x5e, 0xed],
        ConsoleLog ''To connect to this shell, on another computer run:'',
        ConsoleLog (''hypershell '' @ sample_encode [0x5e, 0xed]), ConsoleLog [],
        ConsoleLog (''Firewall allowed: '' @ sample_encode [0xa1, 0xb2]), Verdict [0xa1, 0xb2] False,
        SetKeepAlive 0 5000, Goodbye (SocketEndWait 0) 1, NewProtomux 0,
        MuxPair 0 ''hypershell'', MuxPair 0 ''hypershell-upload'',
        MuxPair 0 ''hypershell-download'', MuxPair 0 ''hypershell-tunnel-local''],
    allowed = Bool True, watcher = False,
    registry = [(3, NodeDestroy), (2, ServerClose), (1, SocketEndWait 0)],
    sockets = [0 \<mapsto> \<lparr>remotePublicKey = [0xa1, 0xb2],
       paired = [(''hypershell'', ShellServer), (''hypershell-upload'', UploadServer),
         (''hypershell-download'', DownloadServer), (''hypershell-tunnel-local'', LocalTunnelServer)]\<rparr>],
    accepted = 1, crashed = None, exited = False\<rparr>"
  by (simp add: cmd_defs sample_defs key_only_files_def fs_defs handler_defs step_def live_def
        mux_pairs_def PROTOCOLS_def Let_def)

theorem disabled_firewall_store_untouched_witness:
  "opt_disableFirewall disabled_options \<and>
   files (server sample_env disabled_options key_only_files
     [Handshake [0xa1, 0xb2], FileChange (JBuffer ''a1b2 alice''), Connection [0xa1, 0xb2]])
     ''/h/authorized_peers'' = None \<and>
   ReadFileSync ''/h/authorized_peers'' \<notin> set (trace (server sample_env disabled_options key_only_files
     [Handshake [0xa1, 0xb2], FileChange (JBuffer ''a1b2 alice''), Connection [0xa1, 0xb2]])) \<and>
   allowed (server sample_env disabled_options key_only_files
     [Handshake [0xa1, 0xb2], FileChange (JBuffer ''a1b2 alice''), Connection [0xa1, 0xb2]]) = Bool True"
proof -
  have h: "opt_disableFirewall disabled_options"
    by (simp add: disabled_options_def)
  show ?thesis
    using h disabled_firewall_store_untouched[OF h refl, of sample_env key_only_files
      "[Handshake [0xa1, 0xb2], FileChange (JBuffer ''a1b2 alice''), Connection [0xa1, 0xb2]]"]
    unfolding sample_disabled_run
    by (simp add: key_only_files_def sample_env_def disabled_options_def sample_options_def)
qed

subsection \<open>The bindings of the multiplexer\<close>

lemma cmd_pairs_ok: "pairs_ok opts (cmd E opts' (init fs))"
  unfolding pairs_ok_def using cmd_trace[of _ E opts' fs] by fastforce

lemma cmd_sockets_ok: "sockets_ok opts (cmd E opts' (init fs))"
  by (simp add: sockets_ok_def cmd_sockets)

lemma drain_actions:
  "e \<in> set (drain r) \<Longrightarrow> \<exists>a \<in> snd ` set r. e = Begin a \<or> e = Finish a"
  by (auto simp: drain_def run_position_def position_handlers_def)

lemma handle_trace:
  assumes "e \<in> set (trace (handle E opts i s))"
  shows "e \<in> set (trace s) \<or> file_event e \<or> (\<exists>m. e = ConsoleLog m) \<or> (\<exists>m. e = ConsoleError m) \<or>
     (\<exists>k r. e = Verdict k r) \<or> e = SetKeepAlive (accepted s) 5000 \<or>
     e = Goodbye (SocketEndWait (accepted s)) 1 \<or> e = NewProtomux (accepted s) \<or>
     (\<exists>b \<in> set (mux_pairs (names (protocols_of opts))). e = MuxPair (accepted s) (fst b)) \<or>
     (\<exists>c. sockets s c \<noteq> None \<and> e = SocketEnd c) \<or>
     (\<exists>c sock b. sockets s c = Some sock \<and> b \<in> set (paired sock) \<and>
        (e = Construct (snd b) c \<or> e = Open (snd b) c)) \<or>
     (\<exists>a \<in> snd ` set (registry s). e = Begin a \<or> e = Finish a)"
proof (cases i)
  case (Handshake k)
  with assms show ?thesis
    by (cases "onFirewall E (allowed s) k"; cases "snd (onFirewall E (allowed s) k)")
       (auto simp: handshake_def fs_defs)
next
  case (Connection k)
  with assms show ?thesis
    by (auto simp: onconnection_def goodbye_def fs_defs Let_def)
next
  case (FileChange buf)
  show ?thesis
  proof (cases "readAuthorizedPeers E buf s")
    case (Pair r s1)
    have "e \<in> set (trace s1) \<Longrightarrow> e \<in> set (trace s) \<or> file_event e \<or> (\<exists>m. e = ConsoleLog m)"
      using readAuthorizedPeers_trace[of e E buf s] Pair by simp
    with assms FileChange Pair show ?thesis
      by (cases r) (auto simp: on_change_def throw_def split: if_splits)
  qed
next
  case (RemoteEnd c)
  with assms show ?thesis
    by (auto simp: on_end_def fs_defs split: option.splits)
next
  case (SocketError c error_code)
  with assms show ?thesis
    by (auto simp: on_error_def fs_defs split: option.splits if_splits)
next
  case (SocketClose c)
  with assms show ?thesis
    by (auto simp: on_close_def unregister_def fs_defs Let_def split: option.splits)
next
  case (RemoteOpen c name channel)
  show ?thesis
  proof (cases "sockets s c")
    case None
    with assms RemoteOpen show ?thesis by (simp add: remote_open_def)
  next
    case (Some sock)
    show ?thesis
    proof (cases "map_of (paired sock) name")
      case None
      with assms RemoteOpen Some show ?thesis by (simp add: remote_open_def)
    next
      case h: (Some h)
      then have "(name, h) \<in> set (paired sock)" by (rule map_of_SomeD)
      then have "\<exists>b. b \<in> set (paired sock) \<and> snd b = h" by force
      with assms RemoteOpen Some h show ?thesis
        by (auto simp: remote_open_def on_pair_def fs_defs Let_def split: if_splits)
    qed
  qed
next
  case Shutdown
  with assms drain_actions[of e "registry s"] show ?thesis
    by (auto simp: shutdown_def)
qed

lemma handle_pairs_ok:
  assumes "pairs_ok opts s" and "sockets_ok opts s"
  shows "pairs_ok opts (handle E opts i s)"
proof -
  let ?P = "mux_pairs (names (protocols_of opts))"
  have 1: "name \<in> fst ` set ?P" if "MuxPair c name \<in> set (trace (handle E opts i s))" for c name
    using handle_trace[OF that] assms(1) by (auto simp: pairs_ok_def)
  have p: "snd b \<in> snd ` set ?P" if "sockets s c = Some sock" "b \<in> set (paired sock)" for c sock b
    using that assms(2) by (simp add: sockets_ok_def)
  have 2: "h \<in> snd ` set ?P" if "Construct h c \<in> set (trace (handle E opts i s))" for c h
    using handle_trace[OF that] assms(1) p by (auto simp: pairs_ok_def)
  have 3: "h \<in> snd ` set ?P" if "Open h c \<in> set (trace (handle E opts i s))" for c h
    using handle_trace[OF that] assms(1) p by (auto simp: pairs_ok_def)
  show ?thesis
    unfolding pairs_ok_def using 1 2 3 by blast
qed

lemma server_pairs_ok:
  "pairs_ok opts (server E opts fs ins) \<and> sockets_ok opts (server E opts fs ins)"
  unfolding server_def
  by (rule run_invariant)
     (use cmd_pairs_ok cmd_sockets_ok handle_pairs_ok sockets_ok_handle in auto)

lemma mux_pairs_disabled:
  assumes "n \<in> set PROTOCOLS" and "n \<notin> set ps"
  shows "protocol_name n \<notin> fst ` set (mux_pairs ps) \<and> handler_class n \<notin> snd ` set (mux_pairs ps)"
proof -
  from assms(1) consider "n = ''shell''" | "n = ''upload''" | "n = ''download''" | "n = ''tunnel''"
    by (auto simp: PROTOCOLS_def)
  then show ?thesis
  proof cases
    case 1
    with assms(2) show ?thesis
      by (auto simp: mux_pairs_def protocol_name_def handler_class_def)
  next
    case 2
    with assms(2) show ?thesis
      by (auto simp: mux_pairs_def protocol_name_def handler_class_def)
  next
    case 3
    with assms(2) show ?thesis
      by (auto simp: mux_pairs_def protocol_name_def handler_class_def)
  next
    case 4
    with assms(2) show ?thesis
      by (auto simp: mux_pairs_def protocol_name_def handler_class_def)
  qed
qed

text \<open>
  C2: for every socket and every one of the names shell, upload, download and tunnel that
  the protocols configured for the run do not include, in every run of the server no
  binding for the protocol of that name is registered on the multiplexer of the socket and
  no handler of that protocol is instantiated or opened, whatever protocols the peers try to
  open.
\<close>

theorem disabled_protocol_never_bound:
  assumes "n \<in> set PROTOCOLS" and "n \<notin> set (names (protocols_of opts))"
    and "s = server E opts fs ins"
  shows "MuxPair c (protocol_name n) \<notin> set (trace s) \<and>
         Construct (handler_class n) c \<notin> set (trace s) \<and>
         Open (handler_class n) c \<notin> set (trace s) \<and>
         (\<forall>sock. sockets s c = Some sock \<longrightarrow> map_of (paired sock) (protocol_name n) = None)"
proof -
  from server_pairs_ok[of opts E fs ins] assms(3)
  have p: "pairs_ok opts s" and q: "sockets_ok opts s" by simp_all
  note d = mux_pairs_disabled[OF assms(1,2)]
  have "\<forall>sock. sockets s c = Some sock \<longrightarrow> map_of (paired sock) (protocol_name n) = None"
  proof (intro allI impI)
    fix sock assume "sockets s c = Some sock"
    then have "paired sock = mux_pairs (names (protocols_of opts))"
      using q by (simp add: sockets_ok_def)
    with d show "map_of (paired sock) (protocol_name n) = None"
      by (simp add: map_of_eq_None_iff)
  qed
  moreover have "MuxPair c (protocol_name n) \<notin> set (trace s)"
    using p d by (auto simp: pairs_ok_def)
  moreover have "Construct (handler_class n) c \<notin> set (trace s)"
    using p d by (auto simp: pairs_ok_def)
  moreover have "Open (handler_class n) c \<notin> set (trace s)"
    using p d by (auto simp: pairs_ok_def)
  ultimately show ?thesis by simp
qed

lemma shell_only_run:
  "server sample_env shell_only_options sample_files
     [Connection [0xa1, 0xb2], RemoteOpen 0 ''hypershell-upload'' True, RemoteOpen 0 ''hypershell'' True] =
   \<lparr>files = sample_files,
    trace = [ExistsSync ''/h/peer'', ExistsSync ''/h/authorized_peers'',
        ReadFileSync ''/h/authorized_peers'', ReadFileLive ''/h/authorized_peers'',
        Goodbye UnwatchFirewall 3, ReadFileSync ''/h/peer'', NewDHT False,
        Goodbye NodeDestroy 3, CreateServer, Goodbye ServerClose 2, Listen [0x5e, 0xed],
        ConsoleLog ''Running server with restricted protocols'',
        ConsoleLog (''Server key: '' @ sample_encode [0x5e, 0xed]), ConsoleLog [],
        SetKeepAlive 0 5000, Goodbye (SocketEndWait 0) 1, NewProtomux 0,
        MuxPair 0 ''hypershell'', Construct ShellServer 0, Open ShellServer 0],
    allowed = Array [[0xa1, 0xb2]], watcher = True,
    registry = [(3, UnwatchFirewall), (3, NodeDestroy), (2, ServerClose), (1, SocketEndWait 0)],
    sockets = [0 \<mapsto> \<lparr>remotePublicKey = [0xa1, 0xb2], paired = [(''hypershell'', ShellServer)]\<rparr>],
    accepted = 1, crashed = None, exited = False\<rparr>"
  by (simp add: cmd_defs sample_defs shell_only_options_def fs_defs handler_defs step_def live_def
        mux_pairs_def PROTOCOLS_def Let_def)

theorem disabled_protocol_never_bound_witness:
  "''upload'' \<in> set PROTOCOLS \<and> ''upload'' \<notin> set (names (protocols_of shell_only_options)) \<and>
   MuxPair 0 ''hypershell-upload'' \<notin> set (trace (server sample_env shell_only_options sample_files
     [Connection [0xa1, 0xb2], RemoteOpen 0 ''hypershell-upload'' True, RemoteOpen 0 ''hypershell'' True])) \<and>
   Construct UploadServer 0 \<notin> set (trace (server sample_env shell_only_options sample_files
     [Connection [0xa1, 0xb2], RemoteOpen 0 ''hypershell-upload'' True, RemoteOpen 0 ''hypershell'' True])) \<and>
   Construct ShellServer 0 \<in> set (trace (server sample_env shell_only_options sample_files
     [Connection [0xa1, 0xb2], RemoteOpen 0 ''hypershell-upload'' True, RemoteOpen 0 ''hypershell'' True]))"
proof -
  have 1: "''upload'' \<in> set PROTOCOLS"
    by (simp add: PROTOCOLS_def)
  have 2: "''upload'' \<notin> set (names (protocols_of shell_only_options))"
    by (simp add: protocols_of_def shell_only_options_def)
  have 3: "protocol_name ''upload'' = ''hypershell-upload''" "handler_class ''upload'' = UploadServer"
    by (simp_all add: protocol_name_def handler_class_def)
  show ?thesis
    using 1 2 disabled_protocol_never_bound[OF 1 2 refl, of 0 sample_env sample_files
      "[Connection [0xa1, 0xb2], RemoteOpen 0 ''hypershell-upload'' True, RemoteOpen 0 ''hypershell'' True]"]
    unfolding 3 shell_only_run by simp
qed

subsection \<open>The callback of a binding\<close>

lemma mux_pairs_distinct: "distinct (map fst (mux_pairs ps))"
  by (simp add: mux_pairs_def)

text \<open>
  C7: when a peer negotiates a protocol bound on a live socket of a running server, the
  callback of the binding instantiates one handler; if the new instance has no channel
  nothing else happens, and \<open>open\<close> is not called; otherwise \<open>open\<close> is called once on it.
  The rest of the state is unchanged.
\<close>

theorem negotiation_dispatch:
  assumes "s = server E opts fs ins" and "live s" and "sockets s c = Some sock"
    and "(name, h) \<in> set (mux_pairs (names (protocols_of opts)))"
  shows "step E opts (RemoteOpen c name channel) s =
           emits (Construct h c # (if channel then [Open h c] else [])) s"
proof -
  have "paired sock = mux_pairs (names (protocols_of opts))"
    using server_pairs_ok[of opts E fs ins] assms(1,3) by (simp add: sockets_ok_def)
  then have "map_of (paired sock) name = Some h"
    using assms(4) mux_pairs_distinct by (simp add: map_of_is_SomeI)
  with assms(2,3) show ?thesis
    by (simp add: step_def remote_open_def on_pair_def fs_defs)
qed

lemma shell_only_connection:
  "server sample_env shell_only_options sample_files [Connection [0xa1, 0xb2]] =
   \<lparr>files = sample_files,
    trace = [ExistsSync ''/h/peer'', ExistsSync ''/h/authorized_peers'',
        ReadFileSync ''/h/authorized_peers'', ReadFileLive ''/h/authorized_peers'',
        Goodbye UnwatchFirewall 3, ReadFileSync ''/h/peer'', NewDHT False,
        Goodbye NodeDestroy 3, CreateServer, Goodbye ServerClose 2, Listen [0x5e, 0xed],
        ConsoleLog ''Running server with restricted protocols'',
        ConsoleLog (''Server key: '' @ sample_encode [0x5e, 0xed]), ConsoleLog [],
        SetKeepAlive 0 5000, Goodbye (SocketEndWait 0) 1, NewProtomux 0,
        MuxPair 0 ''hypershell''],
    allowed = Array [[0xa1, 0xb2]], watcher = True,
    registry = [(3, UnwatchFirewall), (3, NodeDestroy), (2, ServerClose), (1, SocketEndWait 0)],
    sockets = [0 \<mapsto> \<lparr>remotePublicKey = [0xa1, 0xb2], paired = [(''hypershell'', ShellServer)]\<rparr>],
    accepted = 1, crashed = None, exited = False\<rparr>"
  by (simp add: cmd_defs sample_defs shell_only_options_def fs_defs handler_defs step_def live_def
        mux_pairs_def PROTOCOLS_def Let_def)

theorem negotiation_dispatch_witness:
  "live (server sample_env shell_only_options sample_files [Connection [0xa1, 0xb2]]) \<and>
   sockets (server sample_env shell_only_options sample_files [Connection [0xa1, 0xb2]]) 0 =
     Some \<lparr>remotePublicKey = [0xa1, 0xb2], paired = [(''hypershell'', ShellServer)]\<rparr> \<and>
   (''hypershell'', ShellServer) \<in> set (mux_pairs (names (protocols_of shell_only_options))) \<and>
   step sample_env shell_only_options (RemoteOpen 0 ''hypershell'' False)
       (server sample_env shell_only_options sample_files [Connection [0xa1, 0xb2]]) =
     emits [Construct ShellServer 0]
       (server sample_env shell_only_options sample_files [Connection [0xa1, 0xb2]]) \<and>
   step sample_env shell_only_options (RemoteOpen 0 ''hypershell'' True)
       (server sample_env shell_only_options sample_files [Connection [0xa1, 0xb2]]) =
     emits [Construct ShellServer 0, Open ShellServer 0]
       (server sample_env shell_only_options sample_files [Connection [0xa1, 0xb2]])"
proof -
  let ?s = "server sample_env shell_only_options sample_files [Connection [0xa1, 0xb2]]"
  have 1: "live ?s"
    unfolding shell_only_connection by (simp add: live_def)
  have 2: "sockets ?s 0 = Some \<lparr>remotePublicKey = [0xa1, 0xb2], paired = [(''hypershell'', ShellServer)]\<rparr>"
    unfolding shell_only_connection by simp
  have 3: "(''hypershell'', ShellServer) \<in> set (mux_pairs (names (protocols_of shell_only_options)))"
    by (simp add: mux_pairs_def protocols_of_def shell_only_options_def)
  show ?thesis
    using 1 2 3 negotiation_dispatch[OF refl 1 2 3, of False] negotiation_dispatch[OF refl 1 2 3, of True]
    by simp
qed

subsection \<open>The order of shutdown\<close>

lemma cmd_registry_ok:
  assumes "crashed (cmd E opts (init fs)) = None"
  shows "registry_ok opts (cmd E opts (init fs))"
proof -
  have "Begin a \<notin> set (trace (cmd E opts (init fs)))" for a
    using cmd_trace[of "Begin a" E opts fs] by auto
  then show ?thesis
    using cmd_registry[OF assms] by (auto simp: registry_ok_def base_registry_def)
qed

lemma server_registry_ok:
  assumes "crashed (cmd E opts (init fs)) = None"
  shows "registry_ok opts (server E opts fs ins)"
  unfolding server_def
  by (rule run_invariant) (use cmd_registry_ok[OF assms] registry_ok_handle in auto)

lemma filter_position:
  assumes "p \<noteq> 1"
  shows "filter (\<lambda>h. fst h = p) r = filter (\<lambda>h. fst h = p) (filter (\<lambda>h. fst h \<noteq> (1::nat)) r)"
  using assms by (induction r) auto

lemma positions_cases:
  assumes "filter (\<lambda>h. fst h \<noteq> 1) r = base_registry opts"
  shows "positions r = (if position_handlers 1 r = [] then [2, 3] else [1, 2, 3])"
proof -
  have b: "fst ` set (base_registry opts) = {2, 3}"
    by (auto simp: base_registry_def)
  have "set r = {h \<in> set r. fst h = 1} \<union> set (filter (\<lambda>h. fst h \<noteq> 1) r)"
    by auto
  then have "fst ` set r = fst ` {h \<in> set r. fst h = 1} \<union> {2, 3}"
    unfolding assms using b by (metis image_Un)
  moreover have "fst ` {h \<in> set r. fst h = 1} = (if position_handlers 1 r = [] then {} else {1})"
    by (auto simp: position_handlers_def filter_empty_conv)
  ultimately have s: "set (map fst r) = (if position_handlers 1 r = [] then {2, 3} else {1, 2, 3})"
    by auto
  have "positions r = sorted_list_of_set (set (map fst r))"
    unfolding positions_def by (rule sorted_list_of_set_sort_remdups[symmetric])
  then show ?thesis
    unfolding s by simp
qed

lemma drain_tiers:
  assumes "filter (\<lambda>h. fst h \<noteq> 1) r = base_registry opts"
  shows "drain r = map Begin (position_handlers 1 r) @ map Finish (position_handlers 1 r) @
           [Begin ServerClose, Finish ServerClose] @
           map Begin (last_tier opts) @ map Finish (last_tier opts)"
proof -
  have 2: "position_handlers 2 r = [ServerClose]"
    using filter_position[of 2 r] unfolding assms position_handlers_def
    by (simp add: base_registry_def)
  have 3: "position_handlers 3 r = last_tier opts"
    using filter_position[of 3 r] unfolding assms position_handlers_def
    by (simp add: base_registry_def last_tier_def)
  show ?thesis
    by (simp add: drain_def positions_cases[OF assms] run_position_def 2 3)
qed

text \<open>
  C4: when a running server is told to shut down, the functions registered at position 1
  are exactly the end-and-wait functions of the live sockets; they are all started and
  all finish, then the close of the listening server starts and finishes, and only then
  the functions of position 3 (the destruction of the node, and the stop of the file
  watcher when there is one) start and finish.
\<close>

theorem shutdown_order:
  assumes "s = server E opts fs ins" and "live s"
  shows "set (position_handlers 1 (registry s)) = SocketEndWait ` dom (sockets s) \<and>
         trace (step E opts Shutdown s) =
           trace s @ map Begin (position_handlers 1 (registry s)) @
             map Finish (position_handlers 1 (registry s)) @
             [Begin ServerClose, Finish ServerClose] @
             map Begin (last_tier opts) @ map Finish (last_tier opts)"
proof -
  have c: "crashed (cmd E opts (init fs)) = None"
    using assms live_server by simp
  have r: "registry_ok opts s" and k: "sockets_ok opts s"
    using server_registry_ok[OF c] server_pairs_ok[of opts E fs ins] assms(1) by simp_all
  have e: "\<not> exited s"
    using assms(2) by (simp add: live_def)
  have "set (position_handlers 1 (registry s)) = SocketEndWait ` dom (sockets s)"
  proof (intro equalityI subsetI)
    fix a assume "a \<in> set (position_handlers 1 (registry s))"
    then obtain h where "h \<in> set (registry s)" "fst h = 1" "a = snd h"
      by (auto simp: position_handlers_def)
    moreover have "\<forall>h \<in> set (registry s). fst h = 1 \<longrightarrow> (\<exists>c. snd h = SocketEndWait c \<and> sockets s c \<noteq> None)"
      using r e by (simp add: registry_ok_def)
    ultimately show "a \<in> SocketEndWait ` dom (sockets s)"
      by fastforce
  next
    fix a assume "a \<in> SocketEndWait ` dom (sockets s)"
    then obtain c' sock where "a = SocketEndWait c'" "sockets s c' = Some sock"
      by auto
    then have "(1, a) \<in> set (registry s)"
      using k e by (simp add: sockets_ok_def)
    then show "a \<in> set (position_handlers 1 (registry s))"
      by (force simp: position_handlers_def)
  qed
  moreover have "filter (\<lambda>h. fst h \<noteq> 1) (registry s) = base_registry opts"
    using r e by (simp add: registry_ok_def)
  then have "trace (step E opts Shutdown s) =
           trace s @ map Begin (position_handlers 1 (registry s)) @
             map Finish (position_handlers 1 (registry s)) @
             [Begin ServerClose, Finish ServerClose] @
             map Begin (last_tier opts) @ map Finish (last_tier opts)"
    using assms(2) by (simp add: step_def shutdown_def drain_tiers)
  ultimately show ?thesis by simp
qed

subsection \<open>A socket that closes before shutdown\<close>

lemma handle_registry:
  "h \<in> set (registry (handle E opts i s)) \<Longrightarrow>
     h \<in> set (registry s) \<or> h = (1, SocketEndWait (accepted s))"
proof (cases i)
  case (FileChange buf)
  assume "h \<in> set (registry (handle E opts i s))"
  with FileChange readAuthorizedPeers_frame[of E buf s] show ?thesis
    by (cases "readAuthorizedPeers E buf s"; cases "fst (readAuthorizedPeers E buf s)")
       (auto simp: on_change_def throw_def split: if_splits)
next
  case (Handshake k)
  assume "h \<in> set (registry (handle E opts i s))"
  with Handshake show ?thesis
    by (cases "onFirewall E (allowed s) k"; cases "snd (onFirewall E (allowed s) k)")
       (auto simp: handshake_def fs_defs)
qed (auto simp: handler_defs fs_defs Let_def split: option.splits if_splits)

lemma handle_sockets:
  "sockets (handle E opts i s) c = Some sock \<Longrightarrow> sockets s c = Some sock \<or> c = accepted s"
proof (cases i)
  case (FileChange buf)
  assume "sockets (handle E opts i s) c = Some sock"
  with FileChange readAuthorizedPeers_frame[of E buf s] show ?thesis
    by (cases "readAuthorizedPeers E buf s"; cases "fst (readAuthorizedPeers E buf s)")
       (auto simp: on_change_def throw_def split: if_splits)
next
  case (Handshake k)
  assume "sockets (handle E opts i s) c = Some sock"
  with Handshake show ?thesis
    by (cases "onFirewall E (allowed s) k"; cases "snd (onFirewall E (allowed s) k)")
       (auto simp: handshake_def fs_defs)
qed (auto simp: handler_defs fs_defs Let_def split: option.splits if_splits)

lemma handle_accepted: "accepted s \<le> accepted (handle E opts i s)"
proof (cases i)
  case (FileChange buf)
  with readAuthorizedPeers_frame[of E buf s] show ?thesis
    by (cases "readAuthorizedPeers E buf s"; cases "fst (readAuthorizedPeers E buf s)")
       (auto simp: on_change_def throw_def split: if_splits)
next
  case (Handshake k)
  then show ?thesis
    by (cases "onFirewall E (allowed s) k"; cases "snd (onFirewall E (allowed s) k)")
       (auto simp: handshake_def fs_defs)
qed (auto simp: handler_defs fs_defs Let_def split: option.splits if_splits)

lemma handle_closed_for_good:
  assumes "closed_for_good c s"
  shows "closed_for_good c (handle E opts i s)"
proof -
  have 1: "c < accepted (handle E opts i s)"
    using assms handle_accepted[of s E opts i] by (simp add: closed_for_good_def)
  have 2: "sockets (handle E opts i s) c = None"
  proof (cases "sockets (handle E opts i s) c")
    case (Some sock)
    from handle_sockets[OF this] assms show ?thesis by (auto simp: closed_for_good_def)
  qed simp
  have 3: "SocketEndWait c \<notin> snd ` set (registry (handle E opts i s))"
  proof
    assume "SocketEndWait c \<in> snd ` set (registry (handle E opts i s))"
    then obtain h where "h \<in> set (registry (handle E opts i s))" "snd h = SocketEndWait c"
      by auto
    with handle_registry[of h E opts i s] assms show False
      by (force simp: closed_for_good_def)
  qed
  have 4: "Begin (SocketEndWait c) \<notin> set (trace (handle E opts i s))"
  proof
    assume "Begin (SocketEndWait c) \<in> set (trace (handle E opts i s))"
    from handle_trace[OF this] assms show False
      by (auto simp: closed_for_good_def)
  qed
  from 1 2 3 4 show ?thesis by (simp add: closed_for_good_def)
qed

text \<open>
  C5: the end-and-wait function of a live socket of a running server is registered at
  position 1; when the socket closes, the function is removed from the registry in the same
  step, and whatever happens afterwards, a shutdown included, the function is never
  started.
\<close>

theorem closed_socket_never_shut_down:
  assumes "s = server E opts fs ins" and "live s" and "sockets s c = Some sock"
  shows "(1, SocketEndWait c) \<in> set (registry s) \<and>
         SocketEndWait c \<notin> snd ` set (registry (step E opts (SocketClose c) s)) \<and>
         Begin (SocketEndWait c) \<notin> set (trace (run E opts ins' (step E opts (SocketClose c) s)))"
proof -
  have cr: "crashed (cmd E opts (init fs)) = None"
    using assms live_server by simp
  have r: "registry_ok opts s" and k: "sockets_ok opts s"
    using server_registry_ok[OF cr] server_pairs_ok[of opts E fs ins] assms(1) by simp_all
  have e: "\<not> exited s"
    using assms(2) by (simp add: live_def)
  have 1: "(1, SocketEndWait c) \<in> set (registry s)" and lt: "c < accepted s"
    using k e assms(3) by (simp_all add: sockets_ok_def)
  have b: "Begin (SocketEndWait c) \<notin> set (trace s)"
    using r e by (simp add: registry_ok_def)
  have q: "closed_for_good c (step E opts (SocketClose c) s)"
    using assms(2,3) lt b
    by (auto simp: closed_for_good_def step_def on_close_def unregister_def fs_defs Let_def)
  have "closed_for_good c (run E opts ins' (step E opts (SocketClose c) s))"
    by (rule run_invariant) (use q handle_closed_for_good in auto)
  with 1 q show ?thesis
    by (simp add: closed_for_good_def)
qed

lemma two_connections:
  "server sample_env sample_options sample_files [Connection [0xa1, 0xb2], Connection [0xa1, 0xb2]] =
   \<lparr>files = sample_files,
    trace = [ExistsSync ''/h/peer'', ExistsSync ''/h/authorized_peers'',
        ReadFileSync ''/h/authorized_peers'', ReadFileLive ''/h/authorized_peers'',
        Goodbye UnwatchFirewall 3, ReadFileSync ''/h/peer'', NewDHT False,
        Goodbye NodeDestroy 3, CreateServer, Goodbye ServerClose 2, Listen [0x5e, 0xed],
        ConsoleLog ''To connect to this shell, on another computer run:'',
        ConsoleLog (''hypershell '' @ sample_encode [0x5e, 0xed]), ConsoleLog [],
        SetKeepAlive 0 5000, Goodbye (SocketEndWait 0) 1, NewProtomux 0,
        MuxPair 0 ''hypershell'', MuxPair 0 ''hypershell-upload'',
        MuxPair 0 ''hypershell-download'', MuxPair 0 ''hypershell-tunnel-local'',
        SetKeepAlive 1 5000, Goodbye (SocketEndWait 1) 1, NewProtomux 1,
        MuxPair 1 ''hypershell'', MuxPair 1 ''hypershell-upload'',
        MuxPair 1 ''hypershell-download'', MuxPair 1 ''hypershell-tunnel-local''],
    allowed = Array [[0xa1, 0xb2]], watcher = True,
    registry = [(3, UnwatchFirewall), (3, NodeDestroy), (2, ServerClose),
        (1, SocketEndWait 0), (1, SocketEndWait 1)],
    sockets = [0 \<mapsto> \<lparr>remotePublicKey = [0xa1, 0xb2],
         paired = [(''hypershell'', ShellServer), (''hypershell-upload'', UploadServer),
           (''hypershell-download'', DownloadServer), (''hypershell-tunnel-local'', LocalTunnelServer)]\<rparr>,
       1 \<mapsto> \<lparr>remotePublicKey = [0xa1, 0xb2],
         paired = [(''hypershell'', ShellServer), (''hypershell-upload'', UploadServer),
           (''hypershell-download'', DownloadServer), (''hypershell-tunnel-local'', LocalTunnelServer)]\<rparr>],
    accepted = 2, crashed = None, exited = False\<rparr>"
  by (simp add: cmd_defs sample_defs fs_defs handler_defs step_def live_def
        mux_pairs_def PROTOCOLS_def Let_def)

theorem shutdown_order_witness:
  "live (server sample_env sample_options sample_files [Connection [0xa1, 0xb2], Connection [0xa1, 0xb2]]) \<and>
   trace (step sample_env sample_options Shutdown
      (server sample_env sample_options sample_files [Connection [0xa1, 0xb2], Connection [0xa1, 0xb2]])) =
     trace (server sample_env sample_options sample_files [Connection [0xa1, 0xb2], Connection [0xa1, 0xb2]]) @
     [Begin (SocketEndWait 0), Begin (SocketEndWait 1), Finish (SocketEndWait 0), Finish (SocketEndWait 1),
      Begin ServerClose, Finish ServerClose,
      Begin UnwatchFirewall, Begin NodeDestroy, Finish UnwatchFirewall, Finish NodeDestroy]"
proof -
  let ?s = "server sample_env sample_options sample_files [Connection [0xa1, 0xb2], Connection [0xa1, 0xb2]]"
  have l: "live ?s"
    unfolding two_connections by (simp add: live_def)
  have r: "position_handlers 1 (registry ?s) = [SocketEndWait 0, SocketEndWait 1]"
    unfolding two_connections by (simp add: position_handlers_def)
  have t: "last_tier sample_options = [UnwatchFirewall, NodeDestroy]"
    by (simp add: last_tier_def sample_options_def)
  show ?thesis
    using l shutdown_order[OF refl l] unfolding r t by simp
qed

theorem closed_socket_never_shut_down_witness:
  "live (server sample_env sample_options sample_files [Connection [0xa1, 0xb2], Connection [0xa1, 0xb2]]) \<and>
   sockets (server sample_env sample_options sample_files [Connection [0xa1, 0xb2], Connection [0xa1, 0xb2]]) 0 \<noteq> None \<and>
   (1, SocketEndWait 0) \<in> set (registry
      (server sample_env sample_options sample_files [Connection [0xa1, 0xb2], Connection [0xa1, 0xb2]])) \<and>
   Begin (SocketEndWait 0) \<notin> set (trace (run sample_env sample_options [Shutdown]
      (step sample_env sample_options (SocketClose 0)
        (server sample_env sample_options sample_files [Connection [0xa1, 0xb2], Connection [0xa1, 0xb2]])))) \<and>
   Begin (SocketEndWait 1) \<in> set (trace (run sample_env sample_options [Shutdown]
      (step sample_env sample_options (SocketClose 0)
        (server sample_env sample_options sample_files [Connection [0xa1, 0xb2], Connection [0xa1, 0xb2]]))))"
proof -
  let ?s = "server sample_env sample_options sample_files [Connection [0xa1, 0xb2], Connection [0xa1, 0xb2]]"
  have l: "live ?s"
    unfolding two_connections by (simp add: live_def)
  obtain sock where s: "sockets ?s 0 = Some sock"
    unfolding two_connections by simp
  have o: "Begin (SocketEndWait 1) \<in> set (trace (run sample_env sample_options [Shutdown]
      (step sample_env sample_options (SocketClose 0) ?s)))"
    unfolding two_connections
    by (simp add: step_def live_def handler_defs fs_defs drain_def positions_def run_position_def
          position_handlers_def Let_def)
  show ?thesis
    using l s o closed_socket_never_shut_down[OF refl l s, of "[Shutdown]"] by simp
qed

subsection \<open>Reading the authorized peers\<close>























end
